theory Spec2Isabelle
  imports Complex_Main "HOL-Library.Sublist" "HOL-Library.AList"
begin

section \<open>Characters and the string operations of Python used by the processor\<close>

text \<open>
  The source is \<^verbatim>\<open>src/src/nlp_processor.py\<close>, class \<^verbatim>\<open>AdvancedNLPProcessor\<close>.
  A text is a \<open>string\<close>, a list of characters with codes 0 to 255; a character stands for
  the code point of Python's \<^verbatim>\<open>str\<close> with that number (the Latin-1 range). Code points
  from 256 on have no counterpart in this type. On these code points the classes below
  are those of Python 3: \<^verbatim>\<open>\w\<close> is \<^verbatim>\<open>str.isalnum\<close> or the underscore, \<^verbatim>\<open>\d\<close> is \<^verbatim>\<open>[0-9]\<close>,
  white space (for \<^verbatim>\<open>\s\<close>, \<^verbatim>\<open>str.split\<close> and \<^verbatim>\<open>str.strip\<close>) is \<^verbatim>\<open>str.isspace\<close>, and
  \<^verbatim>\<open>str.lower\<close> adds 32 to the capital letters.
  Confidence values, which Python holds as binary floating point numbers, are modelled
  as rationals: sums and comparisons are the exact ones, where Python rounds each sum.
\<close>

definition is_word_char :: "char \<Rightarrow> bool" where
  "is_word_char c =
     (let n = (of_char c :: nat)
      in (48 \<le> n \<and> n \<le> 57) \<or> (65 \<le> n \<and> n \<le> 90) \<or> n = 95 \<or> (97 \<le> n \<and> n \<le> 122)
         \<or> n = 170 \<or> (178 \<le> n \<and> n \<le> 179) \<or> n = 181 \<or> (185 \<le> n \<and> n \<le> 186)
         \<or> (188 \<le> n \<and> n \<le> 190) \<or> (192 \<le> n \<and> n \<le> 214) \<or> (216 \<le> n \<and> n \<le> 246)
         \<or> (248 \<le> n \<and> n \<le> 255))"

definition is_digit_char :: "char \<Rightarrow> bool" where
  "is_digit_char c = (let n = (of_char c :: nat) in 48 \<le> n \<and> n \<le> 57)"

definition is_space_char :: "char \<Rightarrow> bool" where
  "is_space_char c =
     (let n = (of_char c :: nat)
      in (9 \<le> n \<and> n \<le> 13) \<or> (28 \<le> n \<and> n \<le> 32) \<or> n = 133 \<or> n = 160)"

definition is_upper_char :: "char \<Rightarrow> bool" where
  "is_upper_char c =
     (let n = (of_char c :: nat)
      in (65 \<le> n \<and> n \<le> 90) \<or> (192 \<le> n \<and> n \<le> 214) \<or> (216 \<le> n \<and> n \<le> 222))"

definition lower_char :: "char \<Rightarrow> char" where
  "lower_char c = (if is_upper_char c then char_of ((of_char c :: nat) + 32) else c)"

text \<open>\<^verbatim>\<open>s.lower()\<close>\<close>

definition lower :: "string \<Rightarrow> string" where
  "lower s = map lower_char s"

text \<open>\<^verbatim>\<open>s.strip(chars)\<close> removes the characters of \<open>chars\<close> from both ends;
  \<^verbatim>\<open>s.strip()\<close> removes white space from both ends.\<close>

definition strip_chars :: "string \<Rightarrow> string \<Rightarrow> string" where
  "strip_chars chars s =
     rev (dropWhile (\<lambda>c. c \<in> set chars) (rev (dropWhile (\<lambda>c. c \<in> set chars) s)))"

definition strip :: "string \<Rightarrow> string" where
  "strip s = rev (dropWhile is_space_char (rev (dropWhile is_space_char s)))"

text \<open>\<^verbatim>\<open>s.split()\<close>: the maximal runs of characters that are not white space.\<close>

fun split_acc :: "string \<Rightarrow> string \<Rightarrow> string list" where
  "split_acc cur [] = (if cur = [] then [] else [cur])"
| "split_acc cur (c # cs) =
     (if is_space_char c
      then (if cur = [] then split_acc [] cs else cur # split_acc [] cs)
      else split_acc (cur @ [c]) cs)"

definition split :: "string \<Rightarrow> string list" where
  "split s = split_acc [] s"

text \<open>\<^verbatim>\<open>sub in s\<close> for strings: \<open>sub\<close> occurs in \<open>s\<close> as a contiguous piece.\<close>

fun str_in :: "string \<Rightarrow> string \<Rightarrow> bool" where
  "str_in sub [] = (sub = [])"
| "str_in sub (c # cs) = (prefix sub (c # cs) \<or> str_in sub cs)"

text \<open>\<^verbatim>\<open>s.count(sub)\<close>: the number of non-overlapping occurrences of \<open>sub\<close>, found from
  left to right; for the empty \<open>sub\<close> Python answers \<open>len(s) + 1\<close>.\<close>

function str_count :: "string \<Rightarrow> string \<Rightarrow> nat" where
  "str_count sub s =
     (if sub = [] then length s + 1
      else if s = [] then 0
      else if prefix sub s then 1 + str_count sub (drop (length sub) s)
      else str_count sub (tl s))"
  by pat_completeness auto
termination
  by (relation "measure (\<lambda>(sub, s). length s)") auto

declare str_count.simps [simp del]


section \<open>The regular expressions of the pattern library\<close>

text \<open>
  A backtracking matcher for the fragment of Python's \<^verbatim>\<open>re\<close> syntax that
  \<^verbatim>\<open>setup_patterns\<close>, \<^verbatim>\<open>extract_code_snippets\<close> and \<^verbatim>\<open>calculate_confidence\<close> use.
  Every repetition in the source is over a single-character atom, so repetition takes
  an atom. The matcher returns all ways to match at the current position, in the order
  in which a backtracking engine tries them: the first element is the match Python
  reports.
\<close>

datatype citem = CChar char | CWord | CDigit | CSpace

datatype atom = In "citem list" | NotIn "citem list" | AnyChar

datatype regex =
    Lit string
  | One atom
  | Star atom
  | Plus atom
  | LazyStar atom
  | Opt regex
  | Seq "regex list"
  | Alt "regex list"
  | Grp nat regex
  | Bol
  | WordB

record flags =
  ignorecase :: bool
  multiline :: bool
  dotall :: bool

definition NOFLAGS :: flags where
  "NOFLAGS = \<lparr>ignorecase = False, multiline = False, dotall = False\<rparr>"

definition IGNORECASE :: flags where
  "IGNORECASE = \<lparr>ignorecase = True, multiline = False, dotall = False\<rparr>"

definition MULTILINE :: flags where
  "MULTILINE = \<lparr>ignorecase = False, multiline = True, dotall = False\<rparr>"

definition DOTALL :: flags where
  "DOTALL = \<lparr>ignorecase = False, multiline = False, dotall = True\<rparr>"

definition char_eq :: "flags \<Rightarrow> char \<Rightarrow> char \<Rightarrow> bool" where
  "char_eq fl x c = (if ignorecase fl then lower_char x = lower_char c else x = c)"

fun citem_match :: "flags \<Rightarrow> citem \<Rightarrow> char \<Rightarrow> bool" where
  "citem_match fl (CChar x) c = char_eq fl x c"
| "citem_match fl CWord c = is_word_char c"
| "citem_match fl CDigit c = is_digit_char c"
| "citem_match fl CSpace c = is_space_char c"

fun atom_match :: "flags \<Rightarrow> atom \<Rightarrow> char \<Rightarrow> bool" where
  "atom_match fl (In items) c = list_ex (\<lambda>i. citem_match fl i c) items"
| "atom_match fl (NotIn items) c = (\<not> list_ex (\<lambda>i. citem_match fl i c) items)"
| "atom_match fl AnyChar c = (dotall fl \<or> c \<noteq> CHR 0x0A)"

text \<open>
  A matcher state: the groups captured so far (a group that took no part is the empty
  string, as \<^verbatim>\<open>re.findall\<close> reports it), the character before the current position
  (\<open>None\<close> at the start of the text) and the text still to be read.
\<close>

type_synonym mstate = "(nat \<Rightarrow> string) \<times> char option \<times> string"

fun lit_match :: "flags \<Rightarrow> string \<Rightarrow> mstate \<Rightarrow> mstate list" where
  "lit_match fl [] st = [st]"
| "lit_match fl (x # xs) (g, p, []) = []"
| "lit_match fl (x # xs) (g, p, c # cs) =
     (if char_eq fl x c then lit_match fl xs (g, Some c, cs) else [])"

fun one_match :: "flags \<Rightarrow> atom \<Rightarrow> mstate \<Rightarrow> mstate list" where
  "one_match fl a (g, p, []) = []"
| "one_match fl a (g, p, c # cs) = (if atom_match fl a c then [(g, Some c, cs)] else [])"

text \<open>Greedy repetition tries the longest run first, lazy repetition the shortest.\<close>

fun star_greedy :: "flags \<Rightarrow> atom \<Rightarrow> mstate \<Rightarrow> mstate list" where
  "star_greedy fl a (g, p, []) = [(g, p, [])]"
| "star_greedy fl a (g, p, c # cs) =
     (if atom_match fl a c then star_greedy fl a (g, Some c, cs) else []) @ [(g, p, c # cs)]"

fun star_lazy :: "flags \<Rightarrow> atom \<Rightarrow> mstate \<Rightarrow> mstate list" where
  "star_lazy fl a (g, p, []) = [(g, p, [])]"
| "star_lazy fl a (g, p, c # cs) =
     (g, p, c # cs) # (if atom_match fl a c then star_lazy fl a (g, Some c, cs) else [])"

definition at_line_start :: "flags \<Rightarrow> char option \<Rightarrow> bool" where
  "at_line_start fl p = (p = None \<or> (multiline fl \<and> p = Some (CHR 0x0A)))"

definition word_before :: "char option \<Rightarrow> bool" where
  "word_before p = (case p of None \<Rightarrow> False | Some c \<Rightarrow> is_word_char c)"

definition word_after :: "string \<Rightarrow> bool" where
  "word_after s = (case s of [] \<Rightarrow> False | c # cs \<Rightarrow> is_word_char c)"

definition set_group :: "nat \<Rightarrow> string \<Rightarrow> mstate \<Rightarrow> mstate" where
  "set_group n s st =
     (case st of (g, p, s') \<Rightarrow> (g(n := take (length s - length s') s), p, s'))"

fun rmatch :: "flags \<Rightarrow> regex \<Rightarrow> mstate \<Rightarrow> mstate list" where
  "rmatch fl (Lit xs) st = lit_match fl xs st"
| "rmatch fl (One a) st = one_match fl a st"
| "rmatch fl (Star a) st = star_greedy fl a st"
| "rmatch fl (Plus a) st = concat (map (star_greedy fl a) (one_match fl a st))"
| "rmatch fl (LazyStar a) st = star_lazy fl a st"
| "rmatch fl (Opt r) st = rmatch fl r st @ [st]"
| "rmatch fl (Seq []) st = [st]"
| "rmatch fl (Seq (r # rs)) st = concat (map (rmatch fl (Seq rs)) (rmatch fl r st))"
| "rmatch fl (Alt []) st = []"
| "rmatch fl (Alt (r # rs)) st = rmatch fl r st @ rmatch fl (Alt rs) st"
| "rmatch fl (Grp n r) (g, p, s) = map (set_group n s) (rmatch fl r (g, p, s))"
| "rmatch fl Bol (g, p, s) = (if at_line_start fl p then [(g, p, s)] else [])"
| "rmatch fl WordB (g, p, s) = (if word_before p \<noteq> word_after s then [(g, p, s)] else [])"

text \<open>
  The match Python finds at one position: the first way to match, with the captured
  groups, the matched text and the state after it.
\<close>

definition match_at ::
  "flags \<Rightarrow> regex \<Rightarrow> char option \<Rightarrow> string \<Rightarrow> ((nat \<Rightarrow> string) \<times> char option \<times> string) option" where
  "match_at fl r p s =
     (case rmatch fl r (\<lambda>n. [], p, s) of [] \<Rightarrow> None | st # sts \<Rightarrow> Some st)"

text \<open>
  The scan of \<^verbatim>\<open>re.finditer\<close>: the leftmost match from the current position on, then
  on from its end. After an empty match the scan moves one character on. For each match
  it records the groups and the matched text.
\<close>

function scan ::
  "flags \<Rightarrow> regex \<Rightarrow> char option \<Rightarrow> string \<Rightarrow> ((nat \<Rightarrow> string) \<times> string) list" where
  "scan fl r p s =
     (case match_at fl r p s of
        None \<Rightarrow> (case s of [] \<Rightarrow> [] | c # cs \<Rightarrow> scan fl r (Some c) cs)
      | Some (g, p', s') \<Rightarrow>
          (g, take (length s - length s') s) #
          (if length s' < length s then scan fl r p' s'
           else (case s of [] \<Rightarrow> [] | c # cs \<Rightarrow> scan fl r (Some c) cs)))"
  by pat_completeness auto
termination
  by (relation "measure (\<lambda>(fl, r, p, s). length s)") auto

declare scan.simps [simp del]

text \<open>
  \<^verbatim>\<open>re.findall(pattern, text, flags)\<close>: the matched texts for a pattern without groups,
  the text of the group for a pattern with one group, the pair of groups for a pattern
  with two.
\<close>

definition findall0 :: "flags \<Rightarrow> regex \<Rightarrow> string \<Rightarrow> string list" where
  "findall0 fl r s = map snd (scan fl r None s)"

definition findall1 :: "flags \<Rightarrow> regex \<Rightarrow> string \<Rightarrow> string list" where
  "findall1 fl r s = map (\<lambda>(g, m). g 1) (scan fl r None s)"

definition findall2 :: "flags \<Rightarrow> regex \<Rightarrow> string \<Rightarrow> (string \<times> string) list" where
  "findall2 fl r s = map (\<lambda>(g, m). (g 1, g 2)) (scan fl r None s)"

text \<open>\<^verbatim>\<open>re.search(pattern, text)\<close> as a truth value: some position has a match.\<close>

fun search_from :: "flags \<Rightarrow> regex \<Rightarrow> char option \<Rightarrow> string \<Rightarrow> bool" where
  "search_from fl r p [] = (match_at fl r p [] \<noteq> None)"
| "search_from fl r p (c # cs) =
     (match_at fl r p (c # cs) \<noteq> None \<or> search_from fl r (Some c) cs)"

definition search :: "flags \<Rightarrow> regex \<Rightarrow> string \<Rightarrow> bool" where
  "search fl r s = search_from fl r None s"


section \<open>The processor: knowledge bases and patterns\<close>

text \<open>
  The attributes that \<^verbatim>\<open>__init__\<close> sets and the methods read. A knowledge base is a
  Python set of strings; it is modelled by the list of its elements in the order in
  which the set is iterated. That order is fixed for one processor but not determined by
  the source, so the theorems below hold for every processor, whatever its lists are.
  \<^verbatim>\<open>git_patterns\<close> and \<^verbatim>\<open>package_patterns\<close> are set by \<^verbatim>\<open>setup_patterns\<close> but read by no
  method; they are left out.
\<close>

record processor =
  programming_languages :: "string list"
  frameworks_libraries :: "string list"
  platforms_services :: "string list"
  companies_brands :: "string list"
  file_formats :: "string list"
  apis_protocols :: "string list"
  technical_concepts :: "string list"
  url_patterns :: "regex list"
  cli_patterns :: "regex list"

text \<open>
  \<^verbatim>\<open>setup_knowledge_bases\<close>: the set literals of the source, each element once, in the
  order in which the source writes them.
\<close>

definition setup_knowledge_bases :: "processor \<Rightarrow> processor" where
  "setup_knowledge_bases self = self
     \<lparr>programming_languages := [
        ''python'', ''javascript'', ''java'', ''c++'', ''c#'', ''c'', ''go'', ''rust'',
        ''swift'', ''kotlin'', ''typescript'', ''php'', ''ruby'', ''scala'', ''r'',
        ''matlab'', ''perl'', ''lua'', ''dart'', ''julia'', ''haskell'', ''erlang'',
        ''elixir'', ''clojure'', ''f#'', ''ocaml'', ''scheme'', ''lisp'', ''prolog'',
        ''fortran'', ''cobol'', ''pascal'', ''delphi'', ''visual basic'', ''vb.net'',
        ''assembly'', ''bash'', ''powershell'', ''sql'', ''plsql'', ''tsql'', ''nosql'',
        ''graphql'', ''html'', ''css'', ''sass'', ''less'', ''stylus'', ''xml'', ''json'',
        ''yaml'', ''toml'', ''ini'', ''csv'', ''markdown'', ''latex''],
      frameworks_libraries := [
        ''django'', ''flask'', ''fastapi'', ''tornado'', ''pyramid'', ''bottle'',
        ''cherrypy'', ''numpy'', ''pandas'', ''matplotlib'', ''seaborn'', ''plotly'',
        ''bokeh'', ''scipy'', ''scikit-learn'', ''tensorflow'', ''pytorch'', ''keras'',
        ''theano'', ''caffe'', ''opencv'', ''pillow'', ''requests'', ''beautifulsoup'',
        ''scrapy'', ''selenium'', ''pytest'', ''unittest'', ''nose'', ''tox'', ''black'',
        ''flake8'', ''mypy'', ''react'', ''vue'', ''angular'', ''svelte'', ''ember'',
        ''backbone'', ''jquery'', ''express'', ''koa'', ''hapi'', ''fastify'', ''nest'',
        ''next.js'', ''nuxt'', ''gatsby'', ''webpack'', ''parcel'', ''rollup'', ''vite'',
        ''babel'', ''eslint'', ''jest'', ''mocha'', ''chai'', ''cypress'', ''playwright'',
        ''puppeteer'', ''lodash'', ''moment'', ''axios'', ''fetch'', ''socket.io'',
        ''three.js'', ''d3'', ''spring'', ''spring boot'', ''hibernate'', ''struts'',
        ''jsf'', ''wicket'', ''junit'', ''testng'', ''mockito'', ''maven'', ''gradle'',
        ''ant'', ''asp.net'', ''.net core'', ''entity framework'', ''xamarin'', ''blazor'',
        ''nunit'', ''xunit'', ''moq'', ''autofac'', ''ninject'', ''react native'',
        ''flutter'', ''ionic'', ''cordova'', ''phonegap'', ''unity'', ''unreal engine'',
        ''bootstrap'', ''tailwind'', ''bulma'', ''foundation'', ''semantic ui'',
        ''material ui'', ''ant design'', ''chakra ui'', ''styled-components'', ''mongoose'',
        ''sequelize'', ''typeorm'', ''prisma'', ''knex'', ''bookshelf''],
      platforms_services := [
        ''aws'', ''amazon web services'', ''azure'', ''google cloud'', ''gcp'',
        ''digitalocean'', ''linode'', ''vultr'', ''heroku'', ''netlify'', ''vercel'',
        ''cloudflare'', ''fastly'', ''akamai'', ''github'', ''gitlab'', ''bitbucket'',
        ''sourceforge'', ''codeberg'', ''docker'', ''kubernetes'', ''openshift'',
        ''rancher'', ''nomad'', ''jenkins'', ''travis ci'', ''circle ci'',
        ''github actions'', ''gitlab ci'', ''mysql'', ''postgresql'', ''mongodb'',
        ''redis'', ''elasticsearch'', ''cassandra'', ''dynamodb'', ''firestore'',
        ''supabase'', ''planetscale'', ''sqlite'', ''oracle'', ''sql server'', ''mariadb'',
        ''couchdb'', ''rabbitmq'', ''apache kafka'', ''redis pub/sub'', ''amazon sqs'',
        ''google pub/sub'', ''apache pulsar'', ''nats'', ''zeromq'', ''datadog'',
        ''new relic'', ''splunk'', ''elastic stack'', ''prometheus'', ''grafana'',
        ''kibana'', ''logstash'', ''fluentd'', ''sentry'', ''stripe'', ''paypal'',
        ''twilio'', ''sendgrid'', ''mailgun'', ''auth0'', ''firebase'', ''amplify'',
        ''sanity'', ''contentful'', ''strapi''],
      companies_brands := [
        ''google'', ''microsoft'', ''amazon'', ''apple'', ''meta'', ''facebook'',
        ''netflix'', ''uber'', ''airbnb'', ''spotify'', ''slack'', ''discord'', ''zoom'',
        ''salesforce'', ''oracle'', ''ibm'', ''intel'', ''nvidia'', ''amd'', ''qualcomm'',
        ''tesla'', ''spacex'', ''openai'', ''anthropic'', ''hugging face'', ''databricks'',
        ''snowflake'', ''palantir'', ''stripe'', ''shopify'', ''square'', ''paypal'',
        ''adobe'', ''autodesk'', ''unity'', ''epic games'', ''valve'', ''steam'',
        ''github'', ''gitlab'', ''atlassian'', ''jira'', ''confluence'', ''trello'',
        ''notion'', ''airtable'', ''figma'', ''sketch'', ''canva'', ''dropbox'', ''box'',
        ''onedrive'', ''icloud''],
      file_formats := [
        ''json'', ''xml'', ''yaml'', ''toml'', ''ini'', ''csv'', ''tsv'', ''excel'',
        ''pdf'', ''docx'', ''pptx'', ''xlsx'', ''odt'', ''ods'', ''odp'', ''html'', ''css'',
        ''js'', ''ts'', ''jsx'', ''tsx'', ''vue'', ''svelte'', ''py'', ''java'', ''cpp'',
        ''c'', ''h'', ''hpp'', ''cs'', ''go'', ''rs'', ''swift'', ''kt'', ''php'', ''rb'',
        ''scala'', ''r'', ''matlab'', ''m'', ''sql'', ''md'', ''txt'', ''log'', ''conf'',
        ''config'', ''env'', ''dockerfile'', ''docker-compose'', ''makefile'', ''cmake'',
        ''png'', ''jpg'', ''jpeg'', ''gif'', ''svg'', ''webp'', ''ico'', ''mp4'', ''avi'',
        ''mov'', ''wmv'', ''flv'', ''webm'', ''mkv'', ''mp3'', ''wav'', ''flac'', ''aac'',
        ''ogg'', ''wma'', ''zip'', ''tar'', ''gz'', ''bz2'', ''xz'', ''7z'', ''rar''],
      apis_protocols := [
        ''rest'', ''restful'', ''graphql'', ''grpc'', ''soap'', ''websocket'', ''http'',
        ''https'', ''ftp'', ''sftp'', ''ssh'', ''tcp'', ''udp'', ''smtp'', ''pop3'',
        ''imap'', ''dns'', ''dhcp'', ''snmp'', ''oauth'', ''oauth2'', ''jwt'', ''saml'',
        ''openid'', ''ldap'', ''api'', ''webhook'', ''rpc'', ''json-rpc'', ''xml-rpc'',
        ''mqtt'', ''amqp'', ''stomp'', ''sse''],
      technical_concepts := [
        ''machine learning'', ''deep learning'', ''artificial intelligence'',
        ''neural network'', ''computer vision'', ''natural language processing'',
        ''data science'', ''big data'', ''data mining'', ''data analytics'',
        ''cloud computing'', ''edge computing'', ''serverless'', ''microservices'',
        ''containerization'', ''virtualization'', ''devops'', ''ci/cd'', ''agile'',
        ''scrum'', ''kanban'', ''test driven development'', ''tdd'',
        ''behavior driven development'', ''bdd'', ''domain driven design'', ''ddd'',
        ''clean architecture'', ''solid principles'', ''design patterns'', ''blockchain'',
        ''cryptocurrency'', ''smart contracts'', ''defi'', ''web3'', ''metaverse'',
        ''augmented reality'', ''virtual reality'', ''internet of things'', ''iot'',
        ''cybersecurity'', ''penetration testing'', ''ethical hacking'', ''encryption'',
        ''cryptography'', ''ssl'', ''tls'', ''load balancing'', ''caching'', ''cdn'',
        ''database optimization'', ''performance tuning'', ''scalability'',
        ''high availability'', ''disaster recovery'', ''backup'', ''monitoring'',
        ''logging'', ''debugging'', ''profiling'', ''code review'', ''pair programming'',
        ''open source'', ''version control'', ''git'', ''continuous integration'',
        ''continuous deployment'', ''infrastructure as code'', ''automation'']\<rparr>"

text \<open>The character classes of the URL patterns.\<close>

definition host_chars :: atom where
  "host_chars = In [CChar (CHR ''-''), CWord, CChar (CHR ''.'')]"

definition port_chars :: atom where
  "port_chars = In [CChar (CHR '':''), CDigit]"

definition path_chars :: atom where
  "path_chars = In [CWord, CChar (CHR ''/''), CChar (CHR ''_''), CChar (CHR ''.'')]"

definition query_chars :: atom where
  "query_chars =
     In [CWord, CChar (CHR ''&''), CChar (CHR ''=''), CChar (CHR ''%''), CChar (CHR ''.'')]"

definition fragment_chars :: atom where
  "fragment_chars = In [CWord, CChar (CHR ''.'')]"

text \<open>
  \<^verbatim>\<open>(?:[:\d]+)?(?:/(?:[\w/_.])*(?:\?(?:[\w&=%.])*)?(?:#(?:[\w.])*)?)?\<close>, the tail that the
  first two URL patterns share.
\<close>

definition url_tail :: "regex list" where
  "url_tail =
     [Opt (Plus port_chars),
      Opt (Seq [Lit ''/'', Star path_chars,
                Opt (Seq [Lit ''?'', Star query_chars]),
                Opt (Seq [Lit ''#'', Star fragment_chars])])]"

text \<open>\<^verbatim>\<open>https?://(?:[-\w.])+\<close> followed by the tail.\<close>

definition url_pattern_scheme :: regex where
  "url_pattern_scheme = Seq ([Lit ''http'', Opt (Lit ''s''), Lit ''://'', Plus host_chars] @ url_tail)"

text \<open>\<^verbatim>\<open>www\.(?:[-\w.])+\<close> followed by the tail.\<close>

definition url_pattern_www :: regex where
  "url_pattern_www = Seq ([Lit ''www.'', Plus host_chars] @ url_tail)"

text \<open>\<^verbatim>\<open>(?:[-\w.])+\.(?:com|org|net|edu|gov|io|co|ai|dev|app|tech|cloud)(?:/(?:[\w/_.])*)?\<close>\<close>

definition url_pattern_domain :: regex where
  "url_pattern_domain =
     Seq [Plus host_chars, Lit ''.'',
          Alt [Lit ''com'', Lit ''org'', Lit ''net'', Lit ''edu'', Lit ''gov'', Lit ''io'',
               Lit ''co'', Lit ''ai'', Lit ''dev'', Lit ''app'', Lit ''tech'', Lit ''cloud''],
          Opt (Seq [Lit ''/'', Star path_chars])]"

text \<open>\<^verbatim>\<open>(?:^|\s)(tool1|tool2|...)\s+\w+\<close>: the shape of the four command patterns.\<close>

definition cli_pattern :: "string list \<Rightarrow> regex" where
  "cli_pattern tools =
     Seq [Alt [Bol, One (In [CSpace])], Grp 1 (Alt (map Lit tools)),
          Plus (In [CSpace]), Plus (In [CWord])]"

text \<open>The tool names of the four command patterns, in the order of the source.\<close>

definition container_tools :: "string list" where
  "container_tools =
     [''docker'', ''kubectl'', ''helm'', ''terraform'', ''ansible'', ''vagrant'', ''chef'', ''puppet'']"

definition cloud_tools :: "string list" where
  "cloud_tools = [''aws'', ''gcloud'', ''az'']"

definition version_control_tools :: "string list" where
  "version_control_tools = [''git'', ''svn'', ''hg'']"

definition package_tools :: "string list" where
  "package_tools = [''npm'', ''yarn'', ''pip'', ''composer'', ''gem'', ''cargo'', ''go'']"

definition setup_patterns :: "processor \<Rightarrow> processor" where
  "setup_patterns self = self
     \<lparr>url_patterns := [url_pattern_scheme, url_pattern_www, url_pattern_domain],
      cli_patterns :=
        [cli_pattern container_tools, cli_pattern cloud_tools,
         cli_pattern version_control_tools, cli_pattern package_tools]\<rparr>"

text \<open>\<^verbatim>\<open>__init__\<close>: an object with no attributes yet, then the two setup methods.\<close>

definition blank_processor :: processor where
  "blank_processor =
     \<lparr>programming_languages = [], frameworks_libraries = [], platforms_services = [],
      companies_brands = [], file_formats = [], apis_protocols = [], technical_concepts = [],
      url_patterns = [], cli_patterns = []\<rparr>"

definition init :: processor where
  "init = setup_patterns (setup_knowledge_bases blank_processor)"

text \<open>The two patterns that \<^verbatim>\<open>extract_code_snippets\<close> holds as local constants:
  \<^verbatim>\<open>```(\w+)?\n(.*?)\n```\<close> and \<^verbatim>\<open>`([^`]+)`\<close>.\<close>

definition code_block_pattern :: regex where
  "code_block_pattern =
     Seq [Lit ''```'', Opt (Grp 1 (Plus (In [CWord]))), Lit [CHR 0x0A],
          Grp 2 (LazyStar AnyChar), Lit [CHR 0x0A], Lit ''```'']"

definition inline_pattern :: regex where
  "inline_pattern = Seq [Lit ''`'', Grp 1 (Plus (NotIn [CChar (CHR ''`'')])), Lit ''`'']"

text \<open>\<^verbatim>\<open>r'\b' + re.escape(entity) + r'\b'\<close>\<close>

definition word_boundary_pattern :: "string \<Rightarrow> regex" where
  "word_boundary_pattern entity = Seq [WordB, Lit entity, WordB]"


section \<open>The records the methods build\<close>

text \<open>The dictionaries with the keys \<^verbatim>\<open>text, confidence, category\<close>, with
  \<^verbatim>\<open>type, language, code, confidence\<close> and with \<^verbatim>\<open>command, type, confidence\<close>.\<close>

record entity =
  e_text :: string
  e_confidence :: rat
  e_category :: string

record snippet =
  s_type :: string
  s_language :: string
  s_code :: string
  s_confidence :: rat

record command =
  c_command :: string
  c_type :: string
  c_confidence :: rat

text \<open>The dictionary that \<^verbatim>\<open>process_text\<close> returns; \<^verbatim>\<open>confidence_scores\<close> is itself a
  dictionary, kept as the list of its items in insertion order.\<close>

record extraction_result =
  r_urls :: "string list"
  r_tools_and_software :: "entity list"
  r_programming_languages :: "string list"
  r_frameworks_and_libraries :: "string list"
  r_platforms_and_services :: "string list"
  r_companies_and_brands :: "string list"
  r_file_formats :: "string list"
  r_apis_and_protocols :: "string list"
  r_technical_concepts :: "string list"
  r_code_snippets :: "snippet list"
  r_commands :: "command list"
  r_confidence_scores :: "(string \<times> rat) list"


section \<open>The methods\<close>

text \<open>
  \<^verbatim>\<open>extract_urls\<close>. The Python set \<open>urls\<close> is a list without duplicates, in insertion
  order; the order in which \<^verbatim>\<open>list(urls)\<close> returns the elements is not determined by the
  source, and no theorem below depends on it.
\<close>

definition set_add :: "'a \<Rightarrow> 'a list \<Rightarrow> 'a list" where
  "set_add x xs = (if x \<in> set xs then xs else xs @ [x])"

definition add_url :: "string list \<Rightarrow> string \<Rightarrow> string list" where
  "add_url urls m =
     (let url = strip_chars ''.,;:!?'' m
      in if url \<noteq> [] \<and> length url > 5 then set_add url urls else urls)"

definition extract_urls :: "processor \<Rightarrow> string \<Rightarrow> string list" where
  "extract_urls self text' =
     foldl (\<lambda>urls pattern. foldl add_url urls (findall0 IGNORECASE pattern text'))
       [] (url_patterns self)"

text \<open>\<^verbatim>\<open>get_entity_category\<close>\<close>

definition get_entity_category :: "processor \<Rightarrow> string \<Rightarrow> string" where
  "get_entity_category self entity =
     (let entity_lower = lower entity
      in if entity_lower \<in> set (programming_languages self) then ''programming_language''
         else if entity_lower \<in> set (frameworks_libraries self) then ''framework_library''
         else if entity_lower \<in> set (platforms_services self) then ''platform_service''
         else if entity_lower \<in> set (companies_brands self) then ''company_brand''
         else if entity_lower \<in> set (file_formats self) then ''file_format''
         else if entity_lower \<in> set (apis_protocols self) then ''api_protocol''
         else if entity_lower \<in> set (technical_concepts self) then ''technical_concept''
         else ''unknown'')"

text \<open>
  \<^verbatim>\<open>calculate_confidence\<close>. \<open>slice\<close> is \<^verbatim>\<open>words[start:end]\<close> for \<open>start \<le> end\<close>;
  \<open>pos - 5\<close> on natural numbers is \<^verbatim>\<open>max(0, pos - 5)\<close>. The loop over
  \<open>entity_positions\<close> adds the bonus at the first position whose context holds a
  keyword and stops there.
\<close>

definition technical_keywords :: "string list" where
  "technical_keywords =
     [''using'', ''with'', ''framework'', ''library'', ''tool'', ''platform'', ''service'']"

definition slice :: "nat \<Rightarrow> nat \<Rightarrow> 'a list \<Rightarrow> 'a list" where
  "slice start end' xs = drop start (take end' xs)"

fun context_loop :: "string list \<Rightarrow> nat list \<Rightarrow> rat \<Rightarrow> rat" where
  "context_loop words [] base_confidence = base_confidence"
| "context_loop words (pos # rest) base_confidence =
     (let start = pos - 5;
          end' = min (length words) (pos + 5);
          context = slice start end' words
      in if list_ex (\<lambda>keyword. keyword \<in> set context) technical_keywords
         then base_confidence + 1/10
         else context_loop words rest base_confidence)"

definition calculate_confidence :: "string \<Rightarrow> string \<Rightarrow> string list \<Rightarrow> rat" where
  "calculate_confidence text' entity words =
     (let base_confidence = 1/2;
          base_confidence =
            (if search NOFLAGS (word_boundary_pattern entity) text'
             then base_confidence + 3/10 else base_confidence);
          occurrences = str_count entity text';
          base_confidence =
            (if occurrences > 1
             then base_confidence + min (1/5) (of_nat occurrences * (1/20))
             else base_confidence);
          entity_positions = filter (\<lambda>i. str_in entity (words ! i)) [0..<length words];
          base_confidence = context_loop words entity_positions base_confidence
      in min 1 base_confidence)"

text \<open>
  \<^verbatim>\<open>extract_entities_by_category\<close>. The dictionary \<open>unique_entities\<close> is an association
  list in insertion order; assigning to a key that is present replaces the value where
  it stands (\<open>AList.update\<close>). \<^verbatim>\<open>sorted(..., key=..., reverse=True)\<close> is a stable sort
  that keeps elements with equal keys in their original order, which is the stable
  sort by the negated key.
\<close>

definition dedup_step :: "(string \<times> entity) list \<Rightarrow> entity \<Rightarrow> (string \<times> entity) list" where
  "dedup_step unique_entities entity' =
     (let key = lower (e_text entity')
      in case map_of unique_entities key of
           None \<Rightarrow> AList.update key entity' unique_entities
         | Some old \<Rightarrow>
             if e_confidence entity' > e_confidence old
             then AList.update key entity' unique_entities
             else unique_entities)"

definition found_entities :: "processor \<Rightarrow> string \<Rightarrow> string list \<Rightarrow> entity list" where
  "found_entities self text' knowledge_base =
     (let text_lower = lower text';
          words = split text_lower
      in concat (map (\<lambda>entity'.
           let entity_lower = lower entity'
           in if str_in entity_lower text_lower
              then [\<lparr>e_text = entity',
                     e_confidence = calculate_confidence text_lower entity_lower words,
                     e_category = get_entity_category self entity'\<rparr>]
              else []) knowledge_base))"

definition extract_entities_by_category :: "processor \<Rightarrow> string \<Rightarrow> string list \<Rightarrow> entity list" where
  "extract_entities_by_category self text' knowledge_base =
     (let entities = found_entities self text' knowledge_base;
          unique_entities = foldl dedup_step [] entities
      in sort_key (\<lambda>x. - e_confidence x) (map snd unique_entities))"

text \<open>\<^verbatim>\<open>extract_code_snippets\<close>\<close>

definition extract_code_snippets :: "string \<Rightarrow> snippet list" where
  "extract_code_snippets text' =
     map (\<lambda>(language, code).
            \<lparr>s_type = ''code_block'',
             s_language = (if language = [] then ''unknown'' else language),
             s_code = strip code, s_confidence = 9/10\<rparr>)
         (findall2 DOTALL code_block_pattern text')
     @ concat (map (\<lambda>code.
            if length (strip code) > 2
            then [\<lparr>s_type = ''inline_code'', s_language = ''unknown'',
                   s_code = strip code, s_confidence = 6/10\<rparr>]
            else [])
         (findall1 NOFLAGS inline_pattern text'))"

text \<open>\<^verbatim>\<open>extract_commands\<close>\<close>

definition extract_commands :: "processor \<Rightarrow> string \<Rightarrow> command list" where
  "extract_commands self text' =
     concat (map (\<lambda>pattern.
               map (\<lambda>m. \<lparr>c_command = strip m, c_type = ''cli_command'', c_confidence = 8/10\<rparr>)
                   (findall1 MULTILINE pattern text'))
             (cli_patterns self))"

text \<open>
  \<^verbatim>\<open>process_text\<close>. The argument is \<open>None\<close> for Python's \<^verbatim>\<open>None\<close>; \<^verbatim>\<open>not text\<close> holds for
  \<^verbatim>\<open>None\<close> and for the empty string. The method reads the attributes of \<open>self\<close> and
  assigns to none; the model returns the processor after the call beside the result.
\<close>

definition empty_result :: extraction_result where
  "empty_result =
     \<lparr>r_urls = [], r_tools_and_software = [], r_programming_languages = [],
      r_frameworks_and_libraries = [], r_platforms_and_services = [],
      r_companies_and_brands = [], r_file_formats = [], r_apis_and_protocols = [],
      r_technical_concepts = [], r_code_snippets = [], r_commands = [],
      r_confidence_scores = []\<rparr>"

definition mean_confidence :: "rat list \<Rightarrow> rat" where
  "mean_confidence cs = sum_list cs / of_nat (max (length cs) 1)"

definition process_text :: "processor \<Rightarrow> string option \<Rightarrow> extraction_result \<times> processor" where
  "process_text self text' =
     (case text' of
        None \<Rightarrow> (empty_result, self)
      | Some t \<Rightarrow>
          if t = [] then (empty_result, self)
          else
            let urls = extract_urls self t;
                programming_langs = extract_entities_by_category self t (programming_languages self);
                frameworks = extract_entities_by_category self t (frameworks_libraries self);
                platforms = extract_entities_by_category self t (platforms_services self);
                companies = extract_entities_by_category self t (companies_brands self);
                file_formats' = extract_entities_by_category self t (file_formats self);
                apis = extract_entities_by_category self t (apis_protocols self);
                concepts = extract_entities_by_category self t (technical_concepts self);
                tools_and_software = frameworks @ platforms @
                  filter (\<lambda>item. list_ex (\<lambda>keyword. str_in keyword (lower (e_text item)))
                                   [''tool'', ''software'', ''app'', ''platform''])
                         concepts;
                code_snippets = extract_code_snippets t;
                commands = extract_commands self t;
                confidence_scores =
                  [(''url_extraction'', if urls \<noteq> [] then 95/100 else 0),
                   (''entity_extraction'', mean_confidence (map e_confidence tools_and_software)),
                   (''code_detection'', mean_confidence (map s_confidence code_snippets)),
                   (''command_detection'', mean_confidence (map c_confidence commands))]
            in (\<lparr>r_urls = urls,
                 r_tools_and_software = tools_and_software,
                 r_programming_languages = map e_text programming_langs,
                 r_frameworks_and_libraries = map e_text frameworks,
                 r_platforms_and_services = map e_text platforms,
                 r_companies_and_brands = map e_text companies,
                 r_file_formats = map e_text file_formats',
                 r_apis_and_protocols = map e_text apis,
                 r_technical_concepts = map e_text concepts,
                 r_code_snippets = code_snippets,
                 r_commands = commands,
                 r_confidence_scores = confidence_scores\<rparr>, self))"


section \<open>Notions of the specification\<close>

text \<open>
  The fixed priority order of the specification's category lookup: each knowledge base
  with the name of its category.
\<close>

definition category_priority :: "processor \<Rightarrow> (string list \<times> string) list" where
  "category_priority self =
     [(programming_languages self, ''programming_language''),
      (frameworks_libraries self, ''framework_library''),
      (platforms_services self, ''platform_service''),
      (companies_brands self, ''company_brand''),
      (file_formats self, ''file_format''),
      (apis_protocols self, ''api_protocol''),
      (technical_concepts self, ''technical_concept'')]"

text \<open>
  Case-insensitivity, stated without \<^verbatim>\<open>str.lower\<close>: two characters are the same letter
  when they are equal or one is a capital letter (\<^verbatim>\<open>A\<close> to \<^verbatim>\<open>Z\<close>, or a capital of the
  Latin-1 range) and the other the small letter 32 code points above it; two terms are
  the same up to case when they have the same length and the same letters.
\<close>

definition capital_of :: "char \<Rightarrow> char \<Rightarrow> bool" where
  "capital_of a b =
     (let n = (of_char a :: nat)
      in ((65 \<le> n \<and> n \<le> 90) \<or> (192 \<le> n \<and> n \<le> 214) \<or> (216 \<le> n \<and> n \<le> 222))
         \<and> (of_char b :: nat) = n + 32)"

definition same_letter :: "char \<Rightarrow> char \<Rightarrow> bool" where
  "same_letter a b = (a = b \<or> capital_of a b \<or> capital_of b a)"

definition same_up_to_case :: "string \<Rightarrow> string \<Rightarrow> bool" where
  "same_up_to_case s t = list_all2 same_letter s t"

text \<open>The input of the specification's fenced-block example.\<close>

definition fenced_example :: string where
  "fenced_example = ''```javascript'' @ [CHR 0x0A] @ ''const x = 1;'' @ [CHR 0x0A] @ ''```''"


text \<open>
  The place at which a term is first seen in a list (its length when the term is not
  there), and the case-insensitive key under which the matcher records an entity.
\<close>

definition first_index :: "'a list \<Rightarrow> 'a \<Rightarrow> nat" where
  "first_index xs x = length (takeWhile (\<lambda>y. y \<noteq> x) xs)"

definition entity_key :: "entity \<Rightarrow> string" where
  "entity_key e = lower (e_text e)"

text \<open>The invariant of the deduplication loop of the matcher, after the entities \<open>es\<close>
  have been processed: the keys are distinct and are those of \<open>es\<close>, every value is an
  entity of \<open>es\<close> stored under its own key, the keys stand in the order in which they
  are first seen, and for every entity the value kept under its key has at least its
  confidence.\<close>

definition dedup_inv :: "entity list \<Rightarrow> (string \<times> entity) list \<Rightarrow> bool" where
  "dedup_inv es d \<longleftrightarrow>
     distinct (map fst d)
     \<and> fst ` set d = entity_key ` set es
     \<and> (\<forall>(k, v) \<in> set d. k = entity_key v \<and> v \<in> set es)
     \<and> sorted_wrt (\<lambda>a b. first_index (map entity_key es) a < first_index (map entity_key es) b)
          (map fst d)
     \<and> (\<forall>c \<in> set es. \<exists>(k, v) \<in> set d. k = entity_key c \<and> e_confidence c \<le> e_confidence v)"

text \<open>
  The term stands in the text at position \<open>i\<close>; position \<open>i\<close> of the text is a word
  boundary in the sense of \<^verbatim>\<open>\b\<close> (exactly one of the characters before and after it is a
  word character, the ends of the text counting as none); the term occurs somewhere
  between two word boundaries.
\<close>

definition occurs_at :: "string \<Rightarrow> string \<Rightarrow> nat \<Rightarrow> bool" where
  "occurs_at text' entity i =
     (i + length entity \<le> length text' \<and> take (length entity) (drop i text') = entity)"

definition word_boundary_at :: "string \<Rightarrow> nat \<Rightarrow> bool" where
  "word_boundary_at text' i =
     ((0 < i \<and> i \<le> length text' \<and> is_word_char (text' ! (i - 1)))
      \<noteq> (i < length text' \<and> is_word_char (text' ! i)))"

definition boundary_occurrence :: "string \<Rightarrow> string \<Rightarrow> bool" where
  "boundary_occurrence text' entity =
     list_ex (\<lambda>i. occurs_at text' entity i \<and> word_boundary_at text' i
                   \<and> word_boundary_at text' (i + length entity))
       [0..<Suc (length text')]"

text \<open>
  The scorer as the specification words it. The term occurs bounded by non-word
  characters: at some occurrence the text has no word character right before it and
  none right after it (the ends of the text bound it too).
\<close>

definition bounded_by_nonword :: "string \<Rightarrow> string \<Rightarrow> bool" where
  "bounded_by_nonword text' entity =
     list_ex (\<lambda>i. occurs_at text' entity i
                   \<and> (i = 0 \<or> \<not> is_word_char (text' ! (i - 1)))
                   \<and> (i + length entity = length text' \<or> \<not> is_word_char (text' ! (i + length entity))))
       [0..<Suc (length text')]"

text \<open>
  A context keyword stands among the \<open>n_before\<close> tokens before, or the \<open>n_after\<close> tokens
  after, some token that contains the term, or is that token.
\<close>

definition keyword_within :: "nat \<Rightarrow> nat \<Rightarrow> string \<Rightarrow> string list \<Rightarrow> bool" where
  "keyword_within n_before n_after entity words =
     list_ex (\<lambda>pos. str_in entity (words ! pos)
                \<and> list_ex (\<lambda>j. words ! j \<in> set technical_keywords)
                      [pos - n_before ..< min (length words) (pos + n_after + 1)])
       [0..<length words]"

text \<open>The score that C4 states, with the window of 5 tokens on either side.\<close>

definition claimed_confidence :: "string \<Rightarrow> string \<Rightarrow> string list \<Rightarrow> rat" where
  "claimed_confidence text' entity words =
     min 1 (1/2
       + (if bounded_by_nonword text' entity then 3/10 else 0)
       + (if 1 < str_count entity text'
          then min (1/5) (of_nat (str_count entity text') * (1/20)) else 0)
       + (if keyword_within 5 5 entity words then 1/10 else 0))"

text \<open>
  Notions for reasoning about the matcher: the characters that a pattern can read; whether
  a pattern looks at the character after the current position without reading it (only
  \<^verbatim>\<open>\b\<close> does); a state is reached from another by reading the piece \<open>u\<close> of the text; a
  state with \<open>post\<close> added to the text still to be read.
\<close>

fun accepts :: "flags \<Rightarrow> regex \<Rightarrow> char \<Rightarrow> bool" where
  "accepts fl (Lit xs) c = list_ex (\<lambda>x. char_eq fl x c) xs"
| "accepts fl (One a) c = atom_match fl a c"
| "accepts fl (Star a) c = atom_match fl a c"
| "accepts fl (Plus a) c = atom_match fl a c"
| "accepts fl (LazyStar a) c = atom_match fl a c"
| "accepts fl (Opt r) c = accepts fl r c"
| "accepts fl (Seq rs) c = list_ex (\<lambda>r. accepts fl r c) rs"
| "accepts fl (Alt rs) c = list_ex (\<lambda>r. accepts fl r c) rs"
| "accepts fl (Grp n r) c = accepts fl r c"
| "accepts fl Bol c = False"
| "accepts fl WordB c = False"



definition ext :: "string \<Rightarrow> mstate \<Rightarrow> mstate" where
  "ext post st = (case st of (g, p, s) \<Rightarrow> (g, p, s @ post))"





text \<open>A short text and a processor with small knowledge bases, for concrete runs.\<close>

definition sample_text :: string where
  "sample_text = ''use react with npm install `abc`''"

definition small_processor :: processor where
  "small_processor = setup_patterns (blank_processor
     \<lparr>programming_languages := [''python'', ''go''],
      frameworks_libraries := [''react'', ''express''],
      technical_concepts := [''git'']\<rparr>)"


section \<open>Basic facts\<close>

lemma of_char_lower_char:
  "(of_char (lower_char c) :: nat) = (if is_upper_char c then of_char c + 32 else of_char c)"
  by (auto simp: lower_char_def is_upper_char_def Let_def)

lemma lower_char_idem: "lower_char (lower_char c) = lower_char c"
proof -
  have "\<not> is_upper_char (lower_char c)"
    unfolding is_upper_char_def [of "lower_char c"] Let_def of_char_lower_char
    by (auto simp: is_upper_char_def Let_def)
  then show ?thesis
    by (simp add: lower_char_def [of "lower_char c"])
qed

lemma lower_idem: "lower (lower s) = lower s"
  by (simp add: lower_def lower_char_idem)

lemma lower_char_not_upper: "\<not> is_upper_char (lower_char c)"
  unfolding is_upper_char_def [of "lower_char c"] Let_def of_char_lower_char
  by (auto simp: is_upper_char_def Let_def)

lemma capital_of_lower:
  assumes "capital_of a b"
  shows "lower_char a = b" "lower_char b = b"
proof -
  have up: "is_upper_char a" and eq: "(of_char b :: nat) = of_char a + 32"
    using assms by (auto simp: capital_of_def is_upper_char_def Let_def)
  have "lower_char a = char_of (of_char b :: nat)"
    using up eq by (simp add: lower_char_def)
  then show "lower_char a = b"
    by simp
  have "\<not> is_upper_char b"
    using up eq by (auto simp: is_upper_char_def Let_def)
  then show "lower_char b = b"
    by (simp add: lower_char_def)
qed

lemma same_letter_lower_char:
  assumes "same_letter a b"
  shows "lower_char a = lower_char b"
  using assms capital_of_lower [of a b] capital_of_lower [of b a]
  by (auto simp: same_letter_def)

lemma same_up_to_case_lower:
  assumes "same_up_to_case s t"
  shows "lower s = lower t"
  using assms unfolding same_up_to_case_def lower_def
  by (induction rule: list_all2_induct) (simp_all add: same_letter_lower_char)

lemma same_letter_lower: "same_letter c (lower_char c)"
proof (cases "is_upper_char c")
  case True
  then have "capital_of c (lower_char c)"
    unfolding capital_of_def Let_def of_char_lower_char
    by (simp add: is_upper_char_def Let_def)
  then show ?thesis
    by (simp add: same_letter_def)
next
  case False
  then show ?thesis
    by (simp add: same_letter_def lower_char_def)
qed

lemma same_up_to_case_lower_self: "same_up_to_case s (lower s)"
  unfolding same_up_to_case_def lower_def
  by (induction s) (simp_all add: same_letter_lower)

lemma lower_no_capital: "\<not> list_ex is_upper_char (lower s)"
  unfolding lower_def by (induction s) (simp_all add: lower_char_not_upper)

lemma category_runs:
  "lower ''JSON'' = ''json''"
  "same_up_to_case ''JSON'' ''Json''"
  "get_entity_category init ''json'' = ''programming_language''"
  "''json'' \<in> set (file_formats init)"
  "get_entity_category init ''Pythons'' = ''unknown''"
  "lower (CHR 0xC9 # ''COLE'') = CHR 0xE9 # ''cole''"
  by code_simp+

lemma context_loop_cases:
  "context_loop words ps b = b \<or> context_loop words ps b = b + 1/10"
  by (induction ps) (auto simp: Let_def)

lemma calculate_confidence_upper: "calculate_confidence t e ws \<le> 1"
  by (simp add: calculate_confidence_def Let_def)

lemma calculate_confidence_lower: "1/2 \<le> calculate_confidence t e ws"
proof -
  have step: "(1/2::rat) \<le> b \<Longrightarrow> 1/2 \<le> context_loop ws ps b" for b ps
    using context_loop_cases [of ws ps b] by auto
  have rep: "(0::rat) \<le> min (1/5) (of_nat n * (1/20))" for n :: nat
    by simp
  show ?thesis
    unfolding calculate_confidence_def Let_def
    by (intro min.boundedI step) (use rep in \<open>auto intro: add_nonneg_nonneg order_trans\<close>)
qed

lemma found_entities_confidence:
  assumes "e \<in> set (found_entities self t kb)"
  shows "\<exists>x \<in> set kb. e_confidence e =
           calculate_confidence (lower t) (lower x) (split (lower t))"
  using assms by (auto simp: found_entities_def Let_def split: if_splits)

lemma update_values_subset:
  "snd ` set (AList.update k v al) \<subseteq> insert v (snd ` set al)"
  by (induction al) auto

lemma dedup_step_values:
  "snd ` set (dedup_step d e) \<subseteq> insert e (snd ` set d)"
  using update_values_subset [of "lower (e_text e)" e d]
  by (auto simp: dedup_step_def Let_def split: option.splits)

lemma foldl_dedup_values:
  "snd ` set (foldl dedup_step d es) \<subseteq> snd ` set d \<union> set es"
proof (induction es arbitrary: d)
  case Nil
  then show ?case by simp
next
  case (Cons e es)
  have "snd ` set (foldl dedup_step (dedup_step d e) es)
          \<subseteq> snd ` set (dedup_step d e) \<union> set es"
    by (rule Cons.IH)
  also have "\<dots> \<subseteq> insert e (snd ` set d) \<union> set es"
    using dedup_step_values [of d e] by blast
  finally show ?case by auto
qed

lemma extract_entities_subset:
  "set (extract_entities_by_category self t kb) \<subseteq> set (found_entities self t kb)"
  using foldl_dedup_values [of "[]" "found_entities self t kb"]
  by (simp add: extract_entities_by_category_def Let_def)

lemma matched_entity_confidence:
  assumes "e \<in> set (extract_entities_by_category self t kb)"
  shows "1/2 \<le> e_confidence e \<and> e_confidence e \<le> 1"
proof -
  from assms extract_entities_subset have "e \<in> set (found_entities self t kb)"
    by blast
  then obtain x where "e_confidence e =
      calculate_confidence (lower t) (lower x) (split (lower t))"
    using found_entities_confidence by blast
  then show ?thesis
    using calculate_confidence_lower calculate_confidence_upper by simp
qed

lemma snippet_confidence:
  assumes "s \<in> set (extract_code_snippets t)"
  shows "s_confidence s = 9/10 \<or> s_confidence s = 6/10"
  using assms by (auto simp: extract_code_snippets_def split: if_splits)

lemma command_confidence:
  assumes "c \<in> set (extract_commands self t)"
  shows "c_confidence c = 8/10"
  using assms by (auto simp: extract_commands_def)

lemma process_text_tools:
  assumes "e \<in> set (r_tools_and_software (fst (process_text self t)))"
  shows "\<exists>kb. e \<in> set (extract_entities_by_category self (the t) kb)"
  using assms
  by (auto simp: process_text_def empty_result_def Let_def split: option.splits if_splits)

lemma process_text_snippets:
  assumes "s \<in> set (r_code_snippets (fst (process_text self t)))"
  shows "s \<in> set (extract_code_snippets (the t))"
  using assms
  by (auto simp: process_text_def empty_result_def Let_def split: option.splits if_splits)

lemma process_text_commands:
  assumes "c \<in> set (r_commands (fst (process_text self t)))"
  shows "c \<in> set (extract_commands self (the t))"
  using assms
  by (auto simp: process_text_def empty_result_def Let_def split: option.splits if_splits)

lemma process_text_self: "snd (process_text self t) = self"
  by (simp add: process_text_def Let_def split: option.splits)


lemma first_index_append_in:
  "x \<in> set xs \<Longrightarrow> first_index (xs @ ys) x = first_index xs x"
  by (simp add: first_index_def)

lemma first_index_less: "x \<in> set xs \<Longrightarrow> first_index xs x < length xs"
  by (induction xs) (auto simp: first_index_def)

lemma first_index_append_notin:
  "x \<notin> set xs \<Longrightarrow> first_index (xs @ [x]) x = length xs"
  by (induction xs) (auto simp: first_index_def)

lemma first_index_filter_mono:
  assumes "P a" "P b" 
    and "first_index (filter P ys) a < first_index (filter P ys) b"
  shows "first_index ys a < first_index ys b"
  using assms
  by (induction ys) (auto simp: first_index_def split: if_splits)

lemma update_keys_absent:
  "k \<notin> fst ` set al \<Longrightarrow> AList.update k v al = al @ [(k, v)]"
  by (induction al) auto

lemma update_set_subset:
  "set (AList.update k v al) \<subseteq> insert (k, v) (set al)"
  by (induction al) auto

lemma update_mem: "(k, v) \<in> set (AList.update k v al)"
  by (induction al) auto

lemma update_other:
  "(k', v') \<in> set al \<Longrightarrow> k' \<noteq> k \<Longrightarrow> (k', v') \<in> set (AList.update k v al)"
  by (induction al) auto

lemma dedup_step_alt:
  "dedup_step d e =
     (case map_of d (entity_key e) of
        None \<Rightarrow> AList.update (entity_key e) e d
      | Some old \<Rightarrow>
          if e_confidence old < e_confidence e then AList.update (entity_key e) e d else d)"
  by (simp add: dedup_step_def entity_key_def Let_def split: option.splits)

lemma dedup_inv_Nil: "dedup_inv [] []"
  by (simp add: dedup_inv_def)

lemma dedup_inv_step:
  assumes "dedup_inv es d"
  shows "dedup_inv (es @ [e]) (dedup_step d e)"
proof (cases "map_of d (entity_key e)")
  case None
  then have notin: "entity_key e \<notin> fst ` set d"
    by (simp add: map_of_eq_None_iff)
  have step: "dedup_step d e = d @ [(entity_key e, e)]"
    using None notin by (simp add: dedup_step_alt update_keys_absent)
  have keys: "fst ` set d = entity_key ` set es" and dist: "distinct (map fst d)"
    using assms by (auto simp: dedup_inv_def)
  have notin_es: "entity_key e \<notin> set (map entity_key es)"
    using notin keys by simp
  have old: "first_index (map entity_key (es @ [e])) k = first_index (map entity_key es) k"
    if "k \<in> fst ` set d" for k
    using that keys by (simp add: first_index_append_in)
  have new: "first_index (map entity_key (es @ [e])) (entity_key e) = length es"
    using first_index_append_notin [OF notin_es] by simp
  have lt: "first_index (map entity_key es) k < length es" if "k \<in> fst ` set d" for k
    using first_index_less [of k "map entity_key es"] that keys by simp
  have srt: "sorted_wrt (\<lambda>a b. first_index (map entity_key es) a < first_index (map entity_key es) b)
          (map fst d)"
    using assms by (simp add: dedup_inv_def)
  have srt': "sorted_wrt (\<lambda>a b. first_index (map entity_key (es @ [e])) a
                  < first_index (map entity_key (es @ [e])) b) (map fst d)"
    using srt old by (auto simp: sorted_wrt_iff_nth_less)
  have srt'': "sorted_wrt (\<lambda>a b. first_index (map entity_key (es @ [e])) a
                  < first_index (map entity_key (es @ [e])) b) (map fst (d @ [(entity_key e, e)]))"
    using srt' old new lt by (auto simp: sorted_wrt_append)
  have inv3: "\<forall>(k, v) \<in> set d. k = entity_key v \<and> v \<in> set es"
    using assms by (simp add: dedup_inv_def)
  have inv5: "\<forall>c \<in> set es. \<exists>(k, v) \<in> set d. k = entity_key c \<and> e_confidence c \<le> e_confidence v"
    using assms by (simp add: dedup_inv_def)
  have c1: "distinct (map fst (d @ [(entity_key e, e)]))"
    using dist notin by simp
  have c2: "fst ` set (d @ [(entity_key e, e)]) = entity_key ` set (es @ [e])"
    using keys by auto
  have c3: "\<forall>(k, v) \<in> set (d @ [(entity_key e, e)]). k = entity_key v \<and> v \<in> set (es @ [e])"
    using inv3 by auto
  have c5: "\<forall>c \<in> set (es @ [e]). \<exists>(k, v) \<in> set (d @ [(entity_key e, e)]).
              k = entity_key c \<and> e_confidence c \<le> e_confidence v"
  proof
    fix c assume "c \<in> set (es @ [e])"
    then consider "c \<in> set es" | "c = e" by auto
    then show "\<exists>(k, v) \<in> set (d @ [(entity_key e, e)]).
              k = entity_key c \<and> e_confidence c \<le> e_confidence v"
    proof cases
      case 1
      then obtain k v where "(k, v) \<in> set d" "k = entity_key c" "e_confidence c \<le> e_confidence v"
        using inv5 by blast
      then show ?thesis by auto
    next
      case 2
      then show ?thesis by auto
    qed
  qed
  show ?thesis
    unfolding dedup_inv_def step using c1 c2 c3 srt'' c5 by blast
next
  case (Some old)
  then have mem: "(entity_key e, old) \<in> set d"
    by (simp add: map_of_SomeD)
  then have key_in: "entity_key e \<in> fst ` set d"
    by force
  have keys_eq: "map fst (dedup_step d e) = map fst d"
    using Some key_in by (simp add: dedup_step_alt update_keys)
  have keys: "fst ` set d = entity_key ` set es"
    using assms by (auto simp: dedup_inv_def)
  have keys_img: "fst ` set (dedup_step d e) = fst ` set d"
    using arg_cong [OF keys_eq, of set] by simp
  have fi: "first_index (map entity_key (es @ [e])) k = first_index (map entity_key es) k"
    if "k \<in> fst ` set d" for k
    using that keys by (simp add: first_index_append_in)
  have srt: "sorted_wrt (\<lambda>a b. first_index (map entity_key es) a < first_index (map entity_key es) b)
          (map fst d)"
    using assms by (simp add: dedup_inv_def)
  have srt': "sorted_wrt (\<lambda>a b. first_index (map entity_key (es @ [e])) a
                  < first_index (map entity_key (es @ [e])) b) (map fst d)"
    using srt fi by (auto simp: sorted_wrt_iff_nth_less)
  have sub: "set (dedup_step d e) \<subseteq> insert (entity_key e, e) (set d)"
    using update_set_subset [of "entity_key e" e d]
    by (auto simp: dedup_step_alt Some split: if_splits)
  have dist: "distinct (map fst d)"
    using assms by (simp add: dedup_inv_def)
  have inv5: "\<forall>c \<in> set es. \<exists>(k, v) \<in> set d. k = entity_key c \<and> e_confidence c \<le> e_confidence v"
    using assms by (simp add: dedup_inv_def)
  have keep: "\<exists>(k, v) \<in> set (dedup_step d e). k = entity_key c \<and> e_confidence c \<le> e_confidence v"
    if c: "c \<in> set es \<or> c = e" for c
  proof (cases "e_confidence old < e_confidence e")
    case True
    then have upd: "dedup_step d e = AList.update (entity_key e) e d"
      using Some by (simp add: dedup_step_alt)
    show ?thesis
    proof (cases "entity_key c = entity_key e")
      case same: True
      have "e_confidence c \<le> e_confidence e"
      proof (cases "c = e")
        case True then show ?thesis by simp
      next
        case False
        with c have "c \<in> set es" by simp
        then obtain k v where kv: "(k, v) \<in> set d" "k = entity_key c" "e_confidence c \<le> e_confidence v"
          using inv5 by blast
        then have "v = old"
          using eq_key_imp_eq_value [OF dist, of "entity_key e" v old] mem same by simp
        then show ?thesis using kv True by simp
      qed
      then show ?thesis
        using update_mem [of "entity_key e" e d] same upd by force
    next
      case diff: False
      with c have "c \<in> set es" by auto
      then obtain k v where kv: "(k, v) \<in> set d" "k = entity_key c" "e_confidence c \<le> e_confidence v"
        using inv5 by blast
      then show ?thesis
        using update_other [of k v d "entity_key e" e] diff upd by force
    qed
  next
    case False
    then have same: "dedup_step d e = d"
      using Some by (simp add: dedup_step_alt)
    show ?thesis
    proof (cases "c = e")
      case True
      have "e_confidence e \<le> e_confidence old"
        using False by simp
      then show ?thesis
        unfolding same True using mem by (intro bexI [of _ "(entity_key e, old)"]) auto
    next
      case False
      with c have "c \<in> set es" by simp
      then show ?thesis
        unfolding same using inv5 by blast
    qed
  qed
  have inv3: "\<forall>(k, v) \<in> set d. k = entity_key v \<and> v \<in> set es"
    using assms by (simp add: dedup_inv_def)
  have c1: "distinct (map fst (dedup_step d e))"
    using keys_eq dist by simp
  have c2: "fst ` set (dedup_step d e) = entity_key ` set (es @ [e])"
    using keys_img keys key_in by auto
  have c3: "\<forall>(k, v) \<in> set (dedup_step d e). k = entity_key v \<and> v \<in> set (es @ [e])"
    using sub inv3 by auto
  have c4: "sorted_wrt (\<lambda>a b. first_index (map entity_key (es @ [e])) a
                  < first_index (map entity_key (es @ [e])) b) (map fst (dedup_step d e))"
    using keys_eq srt' by simp
  have c5: "\<forall>c \<in> set (es @ [e]). \<exists>(k, v) \<in> set (dedup_step d e).
              k = entity_key c \<and> e_confidence c \<le> e_confidence v"
    using keep by simp
  show ?thesis
    unfolding dedup_inv_def using c1 c2 c3 c4 c5 by blast
qed


lemma dedup_inv_foldl: "dedup_inv es (foldl dedup_step [] es)"
  by (induction es rule: rev_induct) (simp_all add: dedup_inv_Nil dedup_inv_step)

lemma found_entities_keys:
  "map entity_key (found_entities self t kb) =
     filter (\<lambda>k. str_in k (lower t)) (map lower kb)"
  by (induction kb) (simp_all add: found_entities_def entity_key_def Let_def)

lemma sorted_wrt_insort_lex:
  fixes f :: "'a \<Rightarrow> 'b::linorder"
  assumes "sorted_wrt (\<lambda>a b. f a < f b \<or> (f a = f b \<and> R a b)) ys"
    and "\<forall>y \<in> set ys. R x y"
  shows "sorted_wrt (\<lambda>a b. f a < f b \<or> (f a = f b \<and> R a b)) (insort_key f x ys)"
  using assms
proof (induction ys)
  case Nil
  then show ?case by simp
next
  case (Cons y ys)
  show ?case
  proof (cases "f x \<le> f y")
    case True
    have "f y \<le> f z" if "z \<in> set ys" for z
      using Cons.prems(1) that by auto
    then have "f x < f z \<or> (f x = f z \<and> R x z)" if "z \<in> set (y # ys)" for z
      using True Cons.prems(2) that by (force simp: le_less)
    then show ?thesis
      using True Cons.prems(1) by auto
  next
    case False
    then have "sorted_wrt (\<lambda>a b. f a < f b \<or> (f a = f b \<and> R a b)) (insort_key f x ys)"
      using Cons by simp
    then show ?thesis
      using False Cons.prems(1) by (auto simp: set_insort_key)
  qed
qed

lemma sorted_wrt_sort_key_lex:
  fixes f :: "'a \<Rightarrow> 'b::linorder"
  assumes "sorted_wrt R xs"
  shows "sorted_wrt (\<lambda>a b. f a < f b \<or> (f a = f b \<and> R a b)) (sort_key f xs)"
  using assms
proof (induction xs)
  case Nil
  then show ?case by simp
next
  case (Cons x xs)
  then have "sorted_wrt (\<lambda>a b. f a < f b \<or> (f a = f b \<and> R a b)) (sort_key f xs)"
    and "\<forall>y \<in> set (sort_key f xs). R x y"
    by auto
  then show ?case
    using sorted_wrt_insort_lex [of f R "sort_key f xs" x] by simp
qed

lemma lit_match_prefix:
  "lit_match NOFLAGS e (g, p, s) =
     (if prefix e s then [(g, if e = [] then p else Some (last e), drop (length e) s)] else [])"
proof (induction e arbitrary: p s)
  case Nil
  then show ?case by simp
next
  case (Cons x xs)
  show ?case
  proof (cases s)
    case Nil
    then show ?thesis by simp
  next
    case (Cons c cs)
    then show ?thesis
      using Cons.IH [of "Some c" cs]
      by (auto simp: char_eq_def NOFLAGS_def)
  qed
qed

lemma match_at_word_boundary:
  "match_at NOFLAGS (word_boundary_pattern e) p s \<noteq> None \<longleftrightarrow>
     word_before p \<noteq> word_after s \<and> prefix e s
     \<and> word_before (if e = [] then p else Some (last e)) \<noteq> word_after (drop (length e) s)"
  by (auto simp: match_at_def word_boundary_pattern_def lit_match_prefix)

lemma word_before_index:
  "word_before (if pre = [] then None else Some (last pre)) =
     (0 < length pre \<and> is_word_char ((pre @ s) ! (length pre - 1)))"
  by (cases pre rule: rev_cases) (auto simp: word_before_def nth_append)

lemma word_after_index:
  "word_after s = (length pre < length (pre @ s) \<and> is_word_char ((pre @ s) ! length pre))"
  by (cases s) (auto simp: word_after_def nth_append)

lemma word_boundary_at_split:
  "word_boundary_at (pre @ s) (length pre) =
     (word_before (if pre = [] then None else Some (last pre)) \<noteq> word_after s)"
  unfolding word_boundary_at_def word_before_index [of pre s] word_after_index [of s pre]
  by auto

lemma occurs_at_split: "occurs_at (pre @ s) e (length pre) = prefix e s"
  by (auto simp: occurs_at_def prefix_def) (metis append_take_drop_id)


lemma match_at_word_boundary_index:
  "match_at NOFLAGS (word_boundary_pattern e) (if pre = [] then None else Some (last pre)) s
       \<noteq> None \<longleftrightarrow>
     occurs_at (pre @ s) e (length pre) \<and> word_boundary_at (pre @ s) (length pre)
     \<and> word_boundary_at (pre @ s) (length pre + length e)"
proof (cases "prefix e s")
  case False
  then show ?thesis
    unfolding match_at_word_boundary occurs_at_split by simp
next
  case True
  then obtain s' where s: "s = e @ s'"
    by (auto simp: prefix_def)
  have "word_boundary_at ((pre @ e) @ s') (length (pre @ e)) =
          (word_before (if pre @ e = [] then None else Some (last (pre @ e))) \<noteq> word_after s')"
    by (rule word_boundary_at_split)
  then have end_b: "word_boundary_at (pre @ s) (length pre + length e) =
          (word_before (if e = [] then (if pre = [] then None else Some (last pre))
                        else Some (last e)) \<noteq> word_after (drop (length e) s))"
    by (simp add: s)
  show ?thesis
    unfolding match_at_word_boundary end_b occurs_at_split word_boundary_at_split
    using True by simp
qed

lemma search_from_word_boundary:
  "search_from NOFLAGS (word_boundary_pattern e) (if pre = [] then None else Some (last pre)) s
     \<longleftrightarrow>
   (\<exists>i. length pre \<le> i \<and> i \<le> length (pre @ s) \<and> occurs_at (pre @ s) e i
        \<and> word_boundary_at (pre @ s) i \<and> word_boundary_at (pre @ s) (i + length e))"
proof (induction s arbitrary: pre)
  case Nil
  have "(\<exists>i. length pre \<le> i \<and> i \<le> length (pre @ []) \<and> occurs_at (pre @ []) e i
        \<and> word_boundary_at (pre @ []) i \<and> word_boundary_at (pre @ []) (i + length e))
      = (occurs_at (pre @ []) e (length pre)
        \<and> word_boundary_at (pre @ []) (length pre) \<and> word_boundary_at (pre @ []) (length pre + length e))"
    by (auto simp: le_antisym)
  then show ?case
    using match_at_word_boundary_index [of e pre "[]"] by (simp del: not_None_eq)
next
  case (Cons c cs)
  have ih: "search_from NOFLAGS (word_boundary_pattern e) (Some c) cs \<longleftrightarrow>
      (\<exists>i. Suc (length pre) \<le> i \<and> i \<le> length (pre @ c # cs) \<and> occurs_at (pre @ c # cs) e i
        \<and> word_boundary_at (pre @ c # cs) i \<and> word_boundary_at (pre @ c # cs) (i + length e))"
    using Cons.IH [of "pre @ [c]"] by simp
  have here: "match_at NOFLAGS (word_boundary_pattern e)
        (if pre = [] then None else Some (last pre)) (c # cs) \<noteq> None \<longleftrightarrow>
      occurs_at (pre @ c # cs) e (length pre) \<and> word_boundary_at (pre @ c # cs) (length pre)
      \<and> word_boundary_at (pre @ c # cs) (length pre + length e)"
    by (rule match_at_word_boundary_index)
  have split: "(\<exists>i. length pre \<le> i \<and> Q i) \<longleftrightarrow> Q (length pre) \<or> (\<exists>i. Suc (length pre) \<le> i \<and> Q i)"
    for Q :: "nat \<Rightarrow> bool"
    by (metis Suc_leI le_neq_implies_less order_refl Suc_leD)
  show ?case
    unfolding search_from.simps here ih
    by (subst split) auto
qed

lemma upto_le: "set [0..<Suc n] = {i. i \<le> n}"
  by auto

lemma search_word_boundary:
  "search NOFLAGS (word_boundary_pattern e) t = boundary_occurrence t e"
proof -
  have "search NOFLAGS (word_boundary_pattern e) t \<longleftrightarrow>
      (\<exists>i. i \<le> length t \<and> occurs_at t e i
        \<and> word_boundary_at t i \<and> word_boundary_at t (i + length e))"
    using search_from_word_boundary [of e "[]" t] by (simp add: search_def)
  also have "\<dots> \<longleftrightarrow> boundary_occurrence t e"
    unfolding boundary_occurrence_def list_ex_iff upto_le by blast
  finally show ?thesis .
qed

lemma boundary_occurrence_word_edges:
  assumes "e \<noteq> []" "is_word_char (hd e)" "is_word_char (last e)"
  shows "boundary_occurrence t e = bounded_by_nonword t e"
proof -
  have "(word_boundary_at t i \<and> word_boundary_at t (i + length e))
      = ((i = 0 \<or> \<not> is_word_char (t ! (i - 1)))
         \<and> (i + length e = length t \<or> \<not> is_word_char (t ! (i + length e))))"
    if occ: "occurs_at t e i" for i
  proof -
    from occ have le: "i + length e \<le> length t" and tk: "take (length e) (drop i t) = e"
      by (simp_all add: occurs_at_def)
    have pos: "0 < length e" using assms(1) by simp
    have lt: "i < length t"
      using le pos by linarith
    have "t ! i = hd (drop i t)"
      using lt by (simp add: hd_drop_conv_nth)
    also have "\<dots> = hd e"
      using tk pos by (metis hd_take)
    finally have first: "is_word_char (t ! i)"
      using assms(2) by simp
    have idx: "i + length e - 1 = i + (length e - 1)"
      using pos by linarith
    have "t ! (i + length e - 1) = drop i t ! (length e - 1)"
      unfolding idx using le by simp
    also have "\<dots> = take (length e) (drop i t) ! (length e - 1)"
      using pos by simp
    also have "\<dots> = last e"
      using tk assms(1) by (simp add: last_conv_nth)
    finally have lst: "is_word_char (t ! (i + length e - 1))"
      using assms(3) by simp
    show ?thesis
      unfolding word_boundary_at_def using first lst le pos lt by auto
  qed
  then show ?thesis
    unfolding boundary_occurrence_def bounded_by_nonword_def list_ex_iff by blast
qed

lemma set_slice:
  "set (slice a b xs) = {xs ! j | j. a \<le> j \<and> j < b \<and> j < length xs}"
proof -
  have "x \<in> set (drop a (take b xs)) \<longleftrightarrow> (\<exists>j. a \<le> j \<and> j < b \<and> j < length xs \<and> xs ! j = x)"
    for x
  proof
    assume "x \<in> set (drop a (take b xs))"
    then obtain i where i: "i < length (drop a (take b xs))" "drop a (take b xs) ! i = x"
      by (auto simp: in_set_conv_nth)
    then have "i < min (length xs) b - a"
      by simp
    then have lt: "a + i < length (take b xs)"
      by (simp add: less_diff_conv add.commute)
    then have "drop a (take b xs) ! i = take b xs ! (a + i)"
      by simp
    also have "\<dots> = xs ! (a + i)"
      using lt by simp
    finally have "a + i < b" "a + i < length xs" "xs ! (a + i) = x"
      using lt i by auto
    then show "\<exists>j. a \<le> j \<and> j < b \<and> j < length xs \<and> xs ! j = x"
      by (intro exI [of _ "a + i"]) simp
  next
    assume "\<exists>j. a \<le> j \<and> j < b \<and> j < length xs \<and> xs ! j = x"
    then obtain j where j: "a \<le> j" "j < b" "j < length xs" "xs ! j = x"
      by blast
    then have "j - a < length (drop a (take b xs))" "drop a (take b xs) ! (j - a) = x"
      by auto
    then show "x \<in> set (drop a (take b xs))"
      by (auto simp: in_set_conv_nth simp del: length_drop nth_drop)
  qed
  then show ?thesis
    unfolding slice_def by auto
qed

lemma window_keyword:
  "list_ex (\<lambda>keyword. keyword \<in> set (slice (pos - 5) (min (length words) (pos + 5)) words))
       technical_keywords
   \<longleftrightarrow> list_ex (\<lambda>j. words ! j \<in> set technical_keywords)
         [pos - 5 ..< min (length words) (pos + 4 + 1)]"
proof -
  have "(\<exists>k \<in> set technical_keywords. \<exists>j. k = words ! j \<and> Q j)
      \<longleftrightarrow> (\<exists>j. Q j \<and> words ! j \<in> set technical_keywords)" for Q :: "nat \<Rightarrow> bool"
    by blast
  then show ?thesis
    unfolding list_ex_iff set_slice by auto
qed

lemma context_loop_eq:
  "context_loop words ps b =
     (if \<exists>pos \<in> set ps. list_ex (\<lambda>j. words ! j \<in> set technical_keywords)
                            [pos - 5 ..< min (length words) (pos + 4 + 1)]
      then b + 1/10 else b)"
proof (induction ps)
  case Nil
  then show ?case by simp
next
  case (Cons pos ps)
  show ?case
    unfolding context_loop.simps Let_def window_keyword Cons.IH by simp
qed

lemma positions_keyword_within:
  "(\<exists>pos \<in> set (filter (\<lambda>i. str_in e (words ! i)) [0..<length words]).
      list_ex (\<lambda>j. words ! j \<in> set technical_keywords)
        [pos - 5 ..< min (length words) (pos + 4 + 1)])
   \<longleftrightarrow> keyword_within 5 4 e words"
  unfolding keyword_within_def list_ex_iff by auto

lemma keyword_within_wider:
  "keyword_within 5 4 e words \<Longrightarrow> keyword_within 5 5 e words"
  unfolding keyword_within_def list_ex_iff by fastforce

lemma calculate_confidence_exact:
  "calculate_confidence t e ws =
     min 1 (1/2
       + (if boundary_occurrence t e then 3/10 else 0)
       + (if 1 < str_count e t then min (1/5) (of_nat (str_count e t) * (1/20)) else 0)
       + (if keyword_within 5 4 e ws then 1/10 else 0))"
  unfolding calculate_confidence_def Let_def context_loop_eq positions_keyword_within
    search_word_boundary
  by simp

lemma scorer_runs:
  "calculate_confidence '' c++ rocks'' ''c++'' [''c++'', ''rocks''] = 1/2"
  "claimed_confidence '' c++ rocks'' ''c++'' [''c++'', ''rocks''] = 8/10"
  "calculate_confidence ''react a b c d using'' ''react''
     [''react'', ''a'', ''b'', ''c'', ''d'', ''using''] = 8/10"
  "claimed_confidence ''react a b c d using'' ''react''
     [''react'', ''a'', ''b'', ''c'', ''d'', ''using''] = 9/10"
  "bounded_by_nonword '' c++ rocks'' ''c++''"
  "\<not> search NOFLAGS (word_boundary_pattern ''c++'') '' c++ rocks''"
  "keyword_within 5 5 ''react'' [''react'', ''a'', ''b'', ''c'', ''d'', ''using'']"
  by code_simp+












lemma ext_simp [simp]: "ext post (g, p, s) = (g, p, s @ post)"
  by (simp add: ext_def)





































lemma accepts_tools:
  assumes "accepts MULTILINE (Alt (map Lit tools)) c" "\<forall>t \<in> set tools. \<forall>x \<in> set t. is_word_char x"
  shows "is_word_char c"
  using assms by (induction tools) (auto simp: list_ex_iff char_eq_def MULTILINE_def)

lemma accepts_cli_pattern:
  assumes "accepts MULTILINE (cli_pattern tools) c" "\<forall>t \<in> set tools. \<forall>x \<in> set t. is_word_char x"
  shows "is_space_char c \<or> is_word_char c"
proof -
  from assms(1) consider "is_space_char c" | "is_word_char c"
    | "accepts MULTILINE (Alt (map Lit tools)) c"
    unfolding cli_pattern_def by (auto simp del: accepts.simps(8) simp: accepts.simps(8) [of _ "[Bol, One (In [CSpace])]"])
  then show ?thesis
    using accepts_tools [OF _ assms(2)] by cases auto
qed
































lemma small_matcher_run:
  "extract_entities_by_category small_processor sample_text
       [''a'', ''npm'', ''React'', ''react''] =
     [\<lparr>e_text = ''npm'', e_confidence = 9/10, e_category = ''unknown''\<rparr>,
      \<lparr>e_text = ''React'', e_confidence = 9/10, e_category = ''framework_library''\<rparr>,
      \<lparr>e_text = ''a'', e_confidence = 3/4, e_category = ''unknown''\<rparr>]"
  by code_simp

lemma small_found_run:
  "found_entities small_processor sample_text [''a'', ''npm'', ''React'', ''react''] =
     [\<lparr>e_text = ''a'', e_confidence = 3/4, e_category = ''unknown''\<rparr>,
      \<lparr>e_text = ''npm'', e_confidence = 9/10, e_category = ''unknown''\<rparr>,
      \<lparr>e_text = ''React'', e_confidence = 9/10, e_category = ''framework_library''\<rparr>,
      \<lparr>e_text = ''react'', e_confidence = 9/10, e_category = ''framework_library''\<rparr>]"
  by code_simp

lemma small_run:
  "fst (process_text small_processor (Some sample_text)) =
     \<lparr>r_urls = [],
      r_tools_and_software =
        [\<lparr>e_text = ''react'', e_confidence = 9/10, e_category = ''framework_library''\<rparr>],
      r_programming_languages = [], r_frameworks_and_libraries = [''react''],
      r_platforms_and_services = [], r_companies_and_brands = [], r_file_formats = [],
      r_apis_and_protocols = [], r_technical_concepts = [],
      r_code_snippets =
        [\<lparr>s_type = ''inline_code'', s_language = ''unknown'', s_code = ''abc'',
          s_confidence = 6/10\<rparr>],
      r_commands =
        [\<lparr>c_command = ''npm'', c_type = ''cli_command'', c_confidence = 8/10\<rparr>],
      r_confidence_scores =
        [(''url_extraction'', 0), (''entity_extraction'', 9/10),
         (''code_detection'', 6/10), (''command_detection'', 8/10)]\<rparr>"
  by code_simp

lemma fenced_example_run:
  "extract_code_snippets fenced_example =
     [\<lparr>s_type = ''code_block'', s_language = ''javascript'', s_code = ''const x = 1;'',
       s_confidence = 9/10\<rparr>,
      \<lparr>s_type = ''inline_code'', s_language = ''unknown'',
       s_code = ''javascript'' @ [CHR 0x0A] @ ''const x = 1;'', s_confidence = 6/10\<rparr>]"
  by code_simp


section \<open>The claims\<close>

text \<open>
  C2, as the code has it. For the absent and for the empty text, \<^verbatim>\<open>process_text\<close> returns,
  without raising, a result in which every list is empty and \<^verbatim>\<open>confidence_scores\<close> is
  the empty dictionary: none of the four keys is present.
\<close>

theorem process_text_empty:
  "fst (process_text self None) = fst (process_text self (Some []))
   \<and> fst (process_text self (Some [])) =
       \<lparr>r_urls = [], r_tools_and_software = [], r_programming_languages = [],
        r_frameworks_and_libraries = [], r_platforms_and_services = [],
        r_companies_and_brands = [], r_file_formats = [], r_apis_and_protocols = [],
        r_technical_concepts = [], r_code_snippets = [], r_commands = [],
        r_confidence_scores = []\<rparr>"
  by (simp add: process_text_def empty_result_def)

theorem process_text_empty_witness:
  "fst (process_text init None) = fst (process_text init (Some []))
   \<and> r_confidence_scores (fst (process_text init (Some []))) = []
   \<and> r_urls (fst (process_text init (Some []))) = []"
  using process_text_empty [of init] by simp

text \<open>
  C2, as the specification states it, fails: on the empty text the key
  \<^verbatim>\<open>url_extraction\<close> has no value in \<^verbatim>\<open>confidence_scores\<close>, so it is not mapped to zero.
\<close>

theorem process_text_empty_scores_counterexample:
  "map_of (r_confidence_scores (fst (process_text init (Some [])))) ''url_extraction'' = None
   \<and> map_of (r_confidence_scores (fst (process_text init (Some [])))) ''url_extraction''
       \<noteq> Some 0"
  by (simp add: process_text_def empty_result_def)

text \<open>
  C7. The category of a term is that of the first knowledge base, in the priority order
  programming language, framework or library, platform or service, company or brand,
  file format, API or protocol, technical concept, that holds the lower-cased term, and
  \<^verbatim>\<open>unknown\<close> when none does. The lookup does not see the case of the term: the
  lower-cased term is the term up to case and holds no capital letter, and every term
  that is the same up to case gets the same category.
\<close>

theorem get_entity_category_priority:
  "get_entity_category self entity' =
     (case find (\<lambda>(kb, name). lower entity' \<in> set kb) (category_priority self) of
        None \<Rightarrow> ''unknown''
      | Some (kb, name) \<Rightarrow> name)
   \<and> same_up_to_case entity' (lower entity')
   \<and> \<not> list_ex is_upper_char (lower entity')
   \<and> (\<forall>other. same_up_to_case entity' other \<longrightarrow>
          get_entity_category self other = get_entity_category self entity')"
proof -
  have "get_entity_category self other = get_entity_category self entity'"
    if "same_up_to_case entity' other" for other
    using same_up_to_case_lower [OF that] by (simp add: get_entity_category_def)
  then show ?thesis
    by (simp add: get_entity_category_def category_priority_def Let_def
        same_up_to_case_lower_self lower_no_capital)
qed

text \<open>
  At the processor of the source: \<^verbatim>\<open>json\<close> stands in the programming languages and in
  the file formats, and \<^verbatim>\<open>JSON\<close> and \<^verbatim>\<open>Json\<close> both get the category of the first; a
  term of no knowledge base gets \<^verbatim>\<open>unknown\<close>.
\<close>

theorem get_entity_category_priority_witness:
  "same_up_to_case ''JSON'' ''Json''
   \<and> get_entity_category init ''JSON'' = ''programming_language''
   \<and> get_entity_category init ''Json'' = ''programming_language''
   \<and> ''json'' \<in> set (file_formats init)
   \<and> get_entity_category init ''Pythons'' = ''unknown''"
proof -
  have all: "\<forall>other. same_up_to_case ''JSON'' other \<longrightarrow>
          get_entity_category init other = get_entity_category init ''JSON''"
    and low: "same_up_to_case ''JSON'' (lower ''JSON'')"
    using get_entity_category_priority [of init "''JSON''"] by simp_all
  have a: "get_entity_category init ''JSON'' = get_entity_category init ''json''"
    using all low category_runs(1) by auto
  have b: "get_entity_category init ''Json'' = get_entity_category init ''JSON''"
    using all category_runs(2) by blast
  show ?thesis
    using a b category_runs by simp
qed

text \<open>
  C3, as the specification states it, fails: for the fenced block the list has two
  entries, since the inline pattern also matches between the last back-tick of the
  opening fence and the first back-tick of the closing fence.
\<close>

theorem fenced_example_snippets_counterexample:
  "length (extract_code_snippets fenced_example) = 2
   \<and> length (extract_code_snippets fenced_example) \<noteq> 1
   \<and> s_type (extract_code_snippets fenced_example ! 1) = ''inline_code''"
  by (simp add: fenced_example_run)

text \<open>
  C3, as the code has it. For the fenced block the list of code snippets holds exactly
  one entry of type \<^verbatim>\<open>code_block\<close>; it is the first entry of the list and has the
  language \<^verbatim>\<open>javascript\<close>, the code \<^verbatim>\<open>const x = 1;\<close> and the confidence 0.9.
\<close>

theorem fenced_example_code_block:
  "filter (\<lambda>s. s_type s = ''code_block'') (extract_code_snippets fenced_example) =
     [\<lparr>s_type = ''code_block'', s_language = ''javascript'', s_code = ''const x = 1;'',
       s_confidence = 9/10\<rparr>]
   \<and> hd (extract_code_snippets fenced_example) =
     \<lparr>s_type = ''code_block'', s_language = ''javascript'', s_code = ''const x = 1;'',
      s_confidence = 9/10\<rparr>"
  by (simp add: fenced_example_run)

text \<open>
  C8. Every matched entity that the category matcher returns, for any knowledge base,
  every code snippet and every command has a confidence between 0 and 1; so have the
  entries of \<^verbatim>\<open>tools_and_software\<close>, \<^verbatim>\<open>code_snippets\<close> and \<^verbatim>\<open>commands\<close> in the result of
  \<^verbatim>\<open>process_text\<close>.
\<close>

theorem confidence_in_unit_interval:
  "(\<forall>e \<in> set (extract_entities_by_category self t kb).
      0 \<le> e_confidence e \<and> e_confidence e \<le> 1)
   \<and> (\<forall>s \<in> set (extract_code_snippets t). 0 \<le> s_confidence s \<and> s_confidence s \<le> 1)
   \<and> (\<forall>c \<in> set (extract_commands self t). 0 \<le> c_confidence c \<and> c_confidence c \<le> 1)
   \<and> (\<forall>e \<in> set (r_tools_and_software (fst (process_text self t'))).
          0 \<le> e_confidence e \<and> e_confidence e \<le> 1)
   \<and> (\<forall>s \<in> set (r_code_snippets (fst (process_text self t'))).
          0 \<le> s_confidence s \<and> s_confidence s \<le> 1)
   \<and> (\<forall>c \<in> set (r_commands (fst (process_text self t'))).
          0 \<le> c_confidence c \<and> c_confidence c \<le> 1)"
proof -
  have ent: "0 \<le> e_confidence e \<and> e_confidence e \<le> 1"
    if "e \<in> set (extract_entities_by_category self u kb')" for e u kb'
    using matched_entity_confidence [OF that] by simp
  have snip: "0 \<le> s_confidence s \<and> s_confidence s \<le> 1"
    if "s \<in> set (extract_code_snippets u)" for s u
    using snippet_confidence [OF that] by auto
  have cmd: "0 \<le> c_confidence c \<and> c_confidence c \<le> 1"
    if "c \<in> set (extract_commands self u)" for c u
    using command_confidence [OF that] by simp
  show ?thesis
    using ent snip cmd process_text_tools process_text_snippets process_text_commands
    by blast
qed

theorem confidence_in_unit_interval_witness:
  "r_tools_and_software (fst (process_text small_processor (Some sample_text))) =
     [\<lparr>e_text = ''react'', e_confidence = 9/10, e_category = ''framework_library''\<rparr>]
   \<and> r_code_snippets (fst (process_text small_processor (Some sample_text))) =
     [\<lparr>s_type = ''inline_code'', s_language = ''unknown'', s_code = ''abc'',
       s_confidence = 6/10\<rparr>]
   \<and> r_commands (fst (process_text small_processor (Some sample_text))) =
     [\<lparr>c_command = ''npm'', c_type = ''cli_command'', c_confidence = 8/10\<rparr>]
   \<and> list_all (\<lambda>e. 0 \<le> e_confidence e \<and> e_confidence e \<le> 1)
        (r_tools_and_software (fst (process_text small_processor (Some sample_text))))
   \<and> list_all (\<lambda>s. 0 \<le> s_confidence s \<and> s_confidence s \<le> 1)
        (r_code_snippets (fst (process_text small_processor (Some sample_text))))
   \<and> list_all (\<lambda>c. 0 \<le> c_confidence c \<and> c_confidence c \<le> 1)
        (r_commands (fst (process_text small_processor (Some sample_text))))"
  using confidence_in_unit_interval
          [of small_processor sample_text "[]" "Some sample_text"]
  by (simp add: small_run)

text \<open>
  C10. Every matched entity that the category matcher returns, and so every entry of
  \<^verbatim>\<open>tools_and_software\<close>, has a confidence of at least 0.5 and at most 1.
\<close>

theorem matched_entity_confidence_at_least_half:
  "(\<forall>e \<in> set (extract_entities_by_category self t kb).
      1/2 \<le> e_confidence e \<and> e_confidence e \<le> 1)
   \<and> (\<forall>e \<in> set (r_tools_and_software (fst (process_text self t'))).
          1/2 \<le> e_confidence e \<and> e_confidence e \<le> 1)"
  using matched_entity_confidence process_text_tools by blast

theorem matched_entity_confidence_at_least_half_witness:
  "r_tools_and_software (fst (process_text small_processor (Some sample_text))) =
     [\<lparr>e_text = ''react'', e_confidence = 9/10, e_category = ''framework_library''\<rparr>]
   \<and> list_all (\<lambda>e. 1/2 \<le> e_confidence e \<and> e_confidence e \<le> 1)
        (r_tools_and_software (fst (process_text small_processor (Some sample_text))))"
  using matched_entity_confidence_at_least_half
          [of small_processor sample_text "[]" "Some sample_text"]
  by (simp add: small_run)

text \<open>
  C5. For every text and every knowledge base, whatever its iteration order and whether
  or not it repeats a term in another case: the entities that the category matcher
  returns have pairwise different case-insensitive keys; they are ordered by
  confidence, highest first, and entries of equal confidence stand in the order in
  which their terms are first seen in the iteration of the knowledge base; every entry
  is one of the entities recorded for the text, and for every recorded entity the entry
  returned under its key has at least its confidence.
\<close>

theorem category_matcher_dedup_sorted:
  "distinct (map entity_key (extract_entities_by_category self t kb))
   \<and> sorted_wrt (\<lambda>a b. e_confidence b \<le> e_confidence a)
        (extract_entities_by_category self t kb)
   \<and> sorted_wrt (\<lambda>a b. e_confidence b < e_confidence a
          \<or> (e_confidence a = e_confidence b
              \<and> first_index (map lower kb) (entity_key a)
                  < first_index (map lower kb) (entity_key b)))
        (extract_entities_by_category self t kb)
   \<and> set (extract_entities_by_category self t kb) \<subseteq> set (found_entities self t kb)
   \<and> (\<forall>c \<in> set (found_entities self t kb).
         \<exists>e \<in> set (extract_entities_by_category self t kb).
           entity_key e = entity_key c \<and> e_confidence c \<le> e_confidence e)"
proof -
  define es where "es = found_entities self t kb"
  define d where "d = foldl dedup_step [] es"
  define res where "res = extract_entities_by_category self t kb"
  have res: "res = sort_key (\<lambda>x. - e_confidence x) (map snd d)"
    by (simp add: res_def d_def es_def extract_entities_by_category_def Let_def)
  have inv: "dedup_inv es d"
    unfolding d_def by (rule dedup_inv_foldl)
  have dist: "distinct (map fst d)"
    and kv: "\<forall>(k, v) \<in> set d. k = entity_key v \<and> v \<in> set es"
    and srt: "sorted_wrt (\<lambda>a b. first_index (map entity_key es) a
                 < first_index (map entity_key es) b) (map fst d)"
    and keep: "\<forall>c \<in> set es. \<exists>(k, v) \<in> set d. k = entity_key c \<and> e_confidence c \<le> e_confidence v"
    using inv by (simp_all add: dedup_inv_def)
  have fst_key: "map fst d = map entity_key (map snd d)"
    using kv by (induction d) auto
  have c1: "distinct (map entity_key res)"
  proof -
    define vals where "vals = map snd d"
    have "distinct (map entity_key vals)"
      using dist fst_key by (simp add: vals_def)
    then have "distinct vals \<and> inj_on entity_key (set vals)"
      by (simp only: distinct_map)
    then have "distinct (map entity_key (sort_key (\<lambda>x. - e_confidence x) vals))"
      by (simp add: distinct_map)
    then show ?thesis
      unfolding res vals_def .
  qed
  have c2: "sorted_wrt (\<lambda>a b. e_confidence b \<le> e_confidence a) res"
  proof -
    have "sorted (map (\<lambda>x. - e_confidence x) res)"
      unfolding res by (rule sorted_sort_key)
    then show ?thesis
      by (simp add: sorted_map)
  qed
  have keys: "map entity_key es = filter (\<lambda>k. str_in k (lower t)) (map lower kb)"
    unfolding es_def by (rule found_entities_keys)
  have in_es: "str_in (entity_key v) (lower t)" if "v \<in> set (map snd d)" for v
  proof -
    from that kv have "v \<in> set es" by auto
    then have "entity_key v \<in> set (map entity_key es)" by simp
    then show ?thesis unfolding keys by simp
  qed
  have srt_vals: "sorted_wrt (\<lambda>a b. first_index (map lower kb) (entity_key a)
                    < first_index (map lower kb) (entity_key b)) (map snd d)"
  proof -
    have "sorted_wrt (\<lambda>a b. first_index (map entity_key es) (entity_key a)
             < first_index (map entity_key es) (entity_key b)) (map snd d)"
      using srt unfolding fst_key by (simp add: sorted_wrt_map)
    moreover have "first_index (map lower kb) (entity_key a)
               < first_index (map lower kb) (entity_key b)"
      if "a \<in> set (map snd d)" "b \<in> set (map snd d)"
        and lt: "first_index (map entity_key es) (entity_key a)
               < first_index (map entity_key es) (entity_key b)" for a b
      using first_index_filter_mono
              [of "\<lambda>k. str_in k (lower t)" "entity_key a" "entity_key b" "map lower kb"]
            in_es [OF that(1)] in_es [OF that(2)] lt
      unfolding keys by simp
    ultimately show ?thesis
      by (rule sorted_wrt_mono_rel [rotated])
  qed
  have c3: "sorted_wrt (\<lambda>a b. e_confidence b < e_confidence a
          \<or> (e_confidence a = e_confidence b
              \<and> first_index (map lower kb) (entity_key a)
                  < first_index (map lower kb) (entity_key b))) res"
    using sorted_wrt_sort_key_lex [OF srt_vals, of "\<lambda>x. - e_confidence x"]
    unfolding res by simp
  have c4: "set res \<subseteq> set es"
    unfolding res using kv by auto
  have c5: "\<forall>c \<in> set es. \<exists>e \<in> set res. entity_key e = entity_key c \<and> e_confidence c \<le> e_confidence e"
  proof
    fix c assume "c \<in> set es"
    then obtain k v where "(k, v) \<in> set d" "k = entity_key c" "e_confidence c \<le> e_confidence v"
      using keep by blast
    moreover from this kv have "k = entity_key v" by auto
    ultimately show "\<exists>e \<in> set res. entity_key e = entity_key c \<and> e_confidence c \<le> e_confidence e"
      unfolding res by force
  qed
  show ?thesis
    using c1 c2 c3 c4 c5 unfolding res_def es_def by blast
qed

theorem category_matcher_dedup_sorted_witness:
  "extract_entities_by_category small_processor sample_text
       [''a'', ''npm'', ''React'', ''react''] =
     [\<lparr>e_text = ''npm'', e_confidence = 9/10, e_category = ''unknown''\<rparr>,
      \<lparr>e_text = ''React'', e_confidence = 9/10, e_category = ''framework_library''\<rparr>,
      \<lparr>e_text = ''a'', e_confidence = 3/4, e_category = ''unknown''\<rparr>]
   \<and> map e_text (found_entities small_processor sample_text
       [''a'', ''npm'', ''React'', ''react'']) = [''a'', ''npm'', ''React'', ''react'']
   \<and> distinct (map entity_key (extract_entities_by_category small_processor sample_text
       [''a'', ''npm'', ''React'', ''react'']))
   \<and> list_all (\<lambda>c. list_ex (\<lambda>e. entity_key e = entity_key c
                                  \<and> e_confidence c \<le> e_confidence e)
          (extract_entities_by_category small_processor sample_text
             [''a'', ''npm'', ''React'', ''react'']))
        (found_entities small_processor sample_text [''a'', ''npm'', ''React'', ''react''])"
  using category_matcher_dedup_sorted
          [of small_processor sample_text "[''a'', ''npm'', ''React'', ''react'']"]
  by (simp add: small_matcher_run small_found_run list_all_iff list_ex_iff)

text \<open>
  C4. The scorer departs from the claim in the word-boundary bonus. The code adds 0.3,
  under the comment \<^verbatim>\<open>Exact word boundary match\<close>, when
  \<^verbatim>\<open>re.search(r'\b' + re.escape(entity) + r'\b', text)\<close> succeeds. In the text
  \<^verbatim>\<open> c++ rocks\<close> the lexicon term \<^verbatim>\<open>c++\<close> stands between two blanks, so it occurs bounded
  by non-word characters; but \<^verbatim>\<open>\b\<close> asks for a word character on one side, and there is
  none between \<^verbatim>\<open>+\<close> and the blank: the search finds nothing, the code scores 0.5 and
  the claim 0.8. The context window differs too: the code reads \<^verbatim>\<open>words[pos-5:pos+5]\<close>,
  the five tokens before through the four tokens after, so for the term \<^verbatim>\<open>react\<close> in
  \<^verbatim>\<open>react a b c d using\<close>, with the keyword as the fifth token after the term, the code
  scores 0.8 and the claim 0.9. (Lemma \<open>calculate_confidence_exact\<close> above gives the
  score of the code for every input.)
\<close>

theorem calculate_confidence_divergence:
  "bounded_by_nonword '' c++ rocks'' ''c++''
   \<and> \<not> search NOFLAGS (word_boundary_pattern ''c++'') '' c++ rocks''
   \<and> calculate_confidence '' c++ rocks'' ''c++'' [''c++'', ''rocks''] = 1/2
   \<and> claimed_confidence '' c++ rocks'' ''c++'' [''c++'', ''rocks''] = 8/10
   \<and> keyword_within 5 5 ''react'' [''react'', ''a'', ''b'', ''c'', ''d'', ''using'']
   \<and> calculate_confidence ''react a b c d using'' ''react''
         [''react'', ''a'', ''b'', ''c'', ''d'', ''using''] = 8/10
   \<and> claimed_confidence ''react a b c d using'' ''react''
         [''react'', ''a'', ''b'', ''c'', ''d'', ''using''] = 9/10"
  by (simp add: scorer_runs)







end
